theory Spec2Isabelle
  imports Main "HOL-Library.Multiset" "HOL-Library.Char_ord" "HOL-Library.List_Lexorder"
begin

section \<open>Strings and regular expressions of the host language\<close>

text \<open>
  A source string is modelled as a \<^typ>\<open>string\<close>: one \<^typ>\<open>char\<close> per code unit, restricted to the
  code units below 256. The characters that need care in an Isabelle literal are written
  by their code (\<open>CHR 0x22\<close> is the double quote, \<open>CHR 0x27\<close> the single quote,
  \<open>CHR 0x5C\<close> the backslash, \<open>CHR 0x0A\<close> the line feed).
\<close>

text \<open>Truthiness of a \<open>string | undefined\<close> value: \<open>undefined\<close> and the empty string are falsy.\<close>

fun truthy :: "string option \<Rightarrow> bool" where
  "truthy None = False"
| "truthy (Some v) = (v \<noteq> [])"

subsection \<open>Regular expressions\<close>

text \<open>
  The regular expressions of the source use literals, character classes, alternation,
  concatenation and the star only; whether such an expression matches is membership in
  the language it denotes. \<open>lang\<close> is that language, \<open>rx_match\<close> decides it by derivatives.
\<close>

datatype rx = Fail | Eps | Sym "char \<Rightarrow> bool" | Seq rx rx | Alt rx rx | Star rx

definition star :: "string set \<Rightarrow> string set" where
  "star L = {concat ws | ws. set ws \<subseteq> L}"

fun lang :: "rx \<Rightarrow> string set" where
  "lang Fail = {}"
| "lang Eps = {[]}"
| "lang (Sym p) = {[c] | c. p c}"
| "lang (Seq r s) = {u @ v | u v. u \<in> lang r \<and> v \<in> lang s}"
| "lang (Alt r s) = lang r \<union> lang s"
| "lang (Star r) = star (lang r)"

fun nullable :: "rx \<Rightarrow> bool" where
  "nullable Fail = False"
| "nullable Eps = True"
| "nullable (Sym p) = False"
| "nullable (Seq r s) = (nullable r \<and> nullable s)"
| "nullable (Alt r s) = (nullable r \<or> nullable s)"
| "nullable (Star r) = True"

fun deriv :: "char \<Rightarrow> rx \<Rightarrow> rx" where
  "deriv c Fail = Fail"
| "deriv c Eps = Fail"
| "deriv c (Sym p) = (if p c then Eps else Fail)"
| "deriv c (Seq r s) =
     (if nullable r then Alt (Seq (deriv c r) s) (deriv c s) else Seq (deriv c r) s)"
| "deriv c (Alt r s) = Alt (deriv c r) (deriv c s)"
| "deriv c (Star r) = Seq (deriv c r) (Star r)"

text \<open>\<open>rx_match r s\<close>: the whole of \<open>s\<close> matches \<open>r\<close> (a pattern anchored by \<open>^\<close> and \<open>$\<close>).\<close>

fun rx_match :: "rx \<Rightarrow> string \<Rightarrow> bool" where
  "rx_match r [] = nullable r"
| "rx_match r (c # cs) = rx_match (deriv c r) cs"

text \<open>\<open>rx_test_prefix r s\<close>: a prefix of \<open>s\<close> matches \<open>r\<close> (a pattern anchored by \<open>^\<close> only).\<close>

definition rx_test_prefix :: "rx \<Rightarrow> string \<Rightarrow> bool" where
  "rx_test_prefix r s = rx_match (Seq r (Star (Sym (\<lambda>c. True)))) s"

fun lits :: "string \<Rightarrow> rx" where
  "lits [] = Eps"
| "lits (c # cs) = Seq (Sym (\<lambda>x. x = c)) (lits cs)"

text \<open>The classes \<open>\d\<close>, \<open>[a-z]\<close>, \<open>[a-z0-9+.-]\<close> and \<open>.\<close> (any code unit but a line terminator).\<close>

definition is_digit :: "char \<Rightarrow> bool" where
  "is_digit c = (48 \<le> (of_char c :: nat) \<and> (of_char c :: nat) \<le> 57)"

definition is_lower :: "char \<Rightarrow> bool" where
  "is_lower c = (97 \<le> (of_char c :: nat) \<and> (of_char c :: nat) \<le> 122)"

definition is_name_char :: "char \<Rightarrow> bool" where
  "is_name_char c =
     (is_lower c \<or> is_digit c \<or> c = CHR ''+'' \<or> c = CHR ''.'' \<or> c = CHR ''-'')"

definition line_terminator :: "char \<Rightarrow> bool" where
  "line_terminator c = (c = CHR 0x0A \<or> c = CHR 0x0D)"

definition dot :: "char \<Rightarrow> bool" where
  "dot c = (\<not> line_terminator c)"

text \<open>
  The characters with a meaning of their own in pattern source. A text without them, put
  into a pattern, stands for itself.
\<close>

definition rx_special :: "char \<Rightarrow> bool" where
  "rx_special c = (c \<in> set ([CHR 0x5C] @ ''^$.|?*+()[]{}''))"

definition rx_literal :: "string \<Rightarrow> bool" where
  "rx_literal w = (\<not> list_ex rx_special w)"

section \<open>Data model\<close>

text \<open>\<open>IWindowIndicator\<close>; its \<open>onDidChange\<close> is \<open>Event.None\<close>, which never fires.\<close>

record IWindowIndicator =
  wi_label :: string
  wi_tooltip :: string
  wi_command :: string

text \<open>A tooltip is a plain string or a markdown string built by a sequence of appends.\<close>

datatype md_part = AppendMarkdown string | AppendText string

datatype tooltip = TipString string | TipMarkdown "md_part list"

text \<open>
  \<open>IStatusbarEntry\<close> as \<open>renderRemoteStatusIndicator\<close> fills it; the two theme colours
  are constants and are left out.
\<close>

record IStatusbarEntry =
  sb_name :: string
  sb_ariaLabel :: string
  sb_text :: string
  sb_showProgress :: "bool option"
  sb_tooltip :: "tooltip option"
  sb_command :: "string option"

text \<open>A title or category is a string or a localized string with a \<open>value\<close>.\<close>

datatype locstr = Plain string | Localized (loc_value: string) (loc_original: string)

datatype menu_action =
    MenuItemAction (item_id: string) (item_title: locstr) (item_category: "locstr option")
  | SubmenuItemAction

type_synonym ActionGroup = "string \<times> menu_action list"

datatype quick_pick_item =
    Separator "string option"
  | Item string string bool

datatype connection_state = Initializing | Connected | Reconnecting | Disconnected

datatype PersistentConnectionEventType =
    ConnectionLost | ReconnectionWait | ReconnectionRunning
  | ReconnectionPermanentFailure | ConnectionGain

text \<open>
  Where the asynchronous \<open>updateWhenInstalledExtensionsRegistered\<close> stands: waiting for
  the extensions, waiting for the one resolution attempt, or done.
\<close>

datatype async_phase = AwaitingExtensions | AwaitingResolution | Settled

text \<open>The one exception that the code of the class can raise by itself.\<close>

datatype error = SyntaxError

text \<open>
  The fields of \<open>RemoteStatusIndicator\<close>, followed by what the object reads and writes
  outside itself: the warnings handed to the log service, the groups the two menus
  return now, the continuation still to run and the items of the open quick pick.
\<close>

record state =
  remoteStatusEntry :: "IStatusbarEntry option"
  windowIndicator :: "IWindowIndicator option"
  remoteMenuActionsGroups :: "ActionGroup list option"
  remoteAuthority :: "string option"
  virtualWorkspaceLocation :: "(string \<times> string) option"
  connectionState :: "connection_state option"
  connectionStateContextKey :: string
  loggedInvalidGroupNames :: "string \<rightharpoonup> bool"
  warnings :: "string list"
  remoteIndicatorMenu :: "ActionGroup list"
  legacyIndicatorMenu :: "ActionGroup list"
  asyncPhase :: async_phase
  quickPick :: "quick_pick_item list option"

text \<open>
  What the class takes from outside: the string catalogue, the label service, the
  collation of \<open>localeCompare\<close>, the construction of a pattern from source text
  (its test, or nothing when the source is refused with a \<open>SyntaxError\<close>), the
  extension gallery, the agent connection, and the function and the constants
  it imports from modules of the workbench that are not among the sources
  (\<open>getRemoteName\<close>, \<open>Schemas.vscodeRemote\<close>,
  \<open>LIST_WORKSPACE_UNSUPPORTED_EXTENSIONS_COMMAND_ID\<close>, \<open>ReloadWindowAction.ID\<close>).
\<close>

record services =
  localize :: "string \<Rightarrow> string \<Rightarrow> string list \<Rightarrow> string"
  getHostLabel :: "string \<Rightarrow> string \<Rightarrow> string"
  getHostTooltip :: "string \<Rightarrow> string \<Rightarrow> string option"
  getCodiconAriaLabel :: "string \<Rightarrow> string"
  localeCompare :: "string \<Rightarrow> string \<Rightarrow> int"
  regExp :: "string \<Rightarrow> (string \<Rightarrow> bool) option"
  extensionGalleryEnabled :: bool
  hasConnection :: bool
  getRemoteName :: "string \<Rightarrow> string"
  Schemas_vscodeRemote :: string
  LIST_WORKSPACE_UNSUPPORTED_EXTENSIONS_COMMAND_ID :: string
  ReloadWindowAction_ID :: string

section \<open>Constants\<close>

definition isWeb :: bool where
  "isWeb = False"

definition REMOTE_ACTIONS_COMMAND_ID :: string where
  "REMOTE_ACTIONS_COMMAND_ID = ''workbench.action.remote.showMenu''"

definition CONNECT_REMOTE_COMMAND_ID :: string where
  "CONNECT_REMOTE_COMMAND_ID = ''workbench.action.remote.connect''"

definition CLOSE_REMOTE_COMMAND_ID :: string where
  "CLOSE_REMOTE_COMMAND_ID = ''workbench.action.remote.close''"

definition SHOW_CLOSE_REMOTE_COMMAND_ID :: bool where
  "SHOW_CLOSE_REMOTE_COMMAND_ID = (\<not> isWeb)"

definition INSTALL_REMOTE_EXTENSIONS_ID :: string where
  "INSTALL_REMOTE_EXTENSIONS_ID = ''workbench.action.remote.extensions''"

definition REMOTE_STATUS_LABEL_MAX_LENGTH :: nat where
  "REMOTE_STATUS_LABEL_MAX_LENGTH = 40"

definition defaultWindowIndicator :: IWindowIndicator where
  "defaultWindowIndicator =
     \<lparr> wi_label = ''$(remote) k0s: boring_wozniak'',
       wi_tooltip = ''Running in boring_wozniak'',
       wi_command = REMOTE_ACTIONS_COMMAND_ID \<rparr>"

section \<open>Imported helper\<close>

text \<open>
  Modelled from the spec: \<open>truncate\<close> of \<open>vs/base/common/strings\<close> is not among the
  sources. A text within the maximum display length is returned as it is; a longer one
  is cut to that length and given the trailing ellipsis. The ellipsis is one code unit
  (U+2026), written here as the single character \<open>CHR 0x85\<close>.
\<close>

definition ellipsis :: string where
  "ellipsis = [CHR 0x85]"

definition truncate :: "string \<Rightarrow> nat \<Rightarrow> string" where
  "truncate v maxLength = (if length v \<le> maxLength then v else take maxLength v @ ellipsis)"

section \<open>Group validation and the cached menu\<close>

text \<open>The pattern \<open>/^(remote|virtualfs)_(\d\d)_(([a-z][a-z0-9+.-]*)_(.*))$/\<close> of \<open>validatedGroup\<close>.\<close>

definition groupNameRegExp :: rx where
  "groupNameRegExp =
     Seq (Alt (lits ''remote'') (lits ''virtualfs''))
    (Seq (lits ''_'')
    (Seq (Seq (Sym is_digit) (Sym is_digit))
    (Seq (lits ''_'')
    (Seq (Seq (Sym is_lower) (Star (Sym is_name_char)))
    (Seq (lits ''_'') (Star (Sym dot)))))))"

definition invalidGroupWarning :: "string \<Rightarrow> string" where
  "invalidGroupWarning g =
     ''Invalid group name used in '' @ [CHR 0x22] @ ''statusBar/remoteIndicator'' @ [CHR 0x22]
     @ '' menu contribution: '' @ g
     @ ''. Entries ignored. Expected format: '' @ [CHR 0x27]
     @ ''remote_$ORDER_$REMOTENAME_$GROUPING or '' @ [CHR 0x27]
     @ ''virtualfs_$ORDER_$FILESCHEME_$GROUPING.''"

definition validatedGroup :: "string \<Rightarrow> state \<Rightarrow> bool \<times> state" where
  "validatedGroup g s =
     (if \<not> rx_match groupNameRegExp g then
        (if loggedInvalidGroupNames s g \<noteq> Some True then
           (False, s\<lparr> loggedInvalidGroupNames := (loggedInvalidGroupNames s)(g \<mapsto> True),
                     warnings := warnings s @ [invalidGroupWarning g] \<rparr>)
         else (False, s))
      else (True, s))"

text \<open>\<open>getActions().filter(a => this.validatedGroup(a[0]))\<close>, the state threaded through.\<close>

fun filterValidated :: "ActionGroup list \<Rightarrow> state \<Rightarrow> ActionGroup list \<times> state" where
  "filterValidated [] s = ([], s)"
| "filterValidated (a # as) s =
     (case validatedGroup (fst a) s of
        (ok, s1) \<Rightarrow>
          (case filterValidated as s1 of
             (rest, s2) \<Rightarrow> ((if ok then a # rest else rest), s2)))"

definition getRemoteMenuActions :: "bool \<Rightarrow> state \<Rightarrow> ActionGroup list \<times> state" where
  "getRemoteMenuActions doNotUseCache s =
     (case remoteMenuActionsGroups s of
        Some cached \<Rightarrow>
          (if doNotUseCache then
             (case filterValidated (remoteIndicatorMenu s) s of
                (valid, s1) \<Rightarrow>
                  (valid @ legacyIndicatorMenu s,
                   s1\<lparr> remoteMenuActionsGroups := Some (valid @ legacyIndicatorMenu s) \<rparr>))
           else (cached, s))
      | None \<Rightarrow>
          (case filterValidated (remoteIndicatorMenu s) s of
             (valid, s1) \<Rightarrow>
               (valid @ legacyIndicatorMenu s,
                s1\<lparr> remoteMenuActionsGroups := Some (valid @ legacyIndicatorMenu s) \<rparr>)))"

section \<open>The status indicator\<close>

text \<open>
  \<open>renderRemoteStatusIndicator\<close>: a command that is not a string is replaced by the
  menu command when the menu has actions (the cache is consulted only then). Updating
  the entry and adding a first one both leave an entry with the new properties.
\<close>

definition defaultCommand :: "string option \<Rightarrow> state \<Rightarrow> string option \<times> state" where
  "defaultCommand cmd s =
     (case cmd of
        Some c \<Rightarrow> (Some c, s)
      | None \<Rightarrow>
          (case getRemoteMenuActions False s of
             (groups, s1) \<Rightarrow>
               ((if length groups > 0 then Some REMOTE_ACTIONS_COMMAND_ID else None), s1)))"

definition renderRemoteStatusIndicator ::
  "services \<Rightarrow> string \<Rightarrow> tooltip option \<Rightarrow> string option \<Rightarrow> bool option \<Rightarrow> state \<Rightarrow> state" where
  "renderRemoteStatusIndicator env txt tip cmd showProgress s =
     (case defaultCommand cmd s of
        (command, s1) \<Rightarrow>
          s1\<lparr> remoteStatusEntry := Some
                \<lparr> sb_name = localize env ''remoteHost'' ''Remote Host'' [],
                  sb_ariaLabel = getCodiconAriaLabel env txt,
                  sb_text = txt,
                  sb_showProgress = showProgress,
                  sb_tooltip = tip,
                  sb_command = command \<rparr> \<rparr>)"

text \<open>The markdown tooltip of a host: its own tooltip if it has one, else "Editing on {0}".\<close>

definition hostTooltipParts :: "services \<Rightarrow> string \<Rightarrow> string \<Rightarrow> string \<Rightarrow> string \<Rightarrow> md_part list" where
  "hostTooltipParts env key scheme authority hostLabel =
     (if truthy (getHostTooltip env scheme authority)
      then (case getHostTooltip env scheme authority of
              Some t \<Rightarrow> [AppendMarkdown t]
            | None \<Rightarrow> [])
      else [AppendText (localize env key ''Editing on {0}'' [hostLabel])])"

text \<open>The branch for a remote window, by connection state.\<close>

definition showRemoteHost :: "services \<Rightarrow> string \<Rightarrow> state \<Rightarrow> state" where
  "showRemoteHost env authority s =
     (let hostLabel =
            (if getHostLabel env (Schemas_vscodeRemote env) authority \<noteq> []
             then getHostLabel env (Schemas_vscodeRemote env) authority else authority)
      in case connectionState s of
           Some Initializing \<Rightarrow>
             renderRemoteStatusIndicator env
               (localize env ''host.open'' ''Opening Remote...'' [])
               (Some (TipString (localize env ''host.open'' ''Opening Remote...'' [])))
               None (Some True) s
         | Some Reconnecting \<Rightarrow>
             renderRemoteStatusIndicator env
               (localize env ''host.reconnecting'' ''Reconnecting to {0}...''
                  [truncate hostLabel REMOTE_STATUS_LABEL_MAX_LENGTH])
               None None (Some True) s
         | Some Disconnected \<Rightarrow>
             renderRemoteStatusIndicator env
               (''$(alert) '' @ localize env ''disconnectedFrom'' ''Disconnected from {0}''
                  [truncate hostLabel REMOTE_STATUS_LABEL_MAX_LENGTH])
               None None None s
         | _ \<Rightarrow>
             renderRemoteStatusIndicator env
               (''$(remote) '' @ truncate hostLabel REMOTE_STATUS_LABEL_MAX_LENGTH)
               (Some (TipMarkdown
                  (hostTooltipParts env ''host.tooltip'' (Schemas_vscodeRemote env) authority hostLabel)))
               None None s)"

text \<open>The last two branches: offer the menu when it has actions, else hide the entry.\<close>

definition offerMenuOrHide :: "services \<Rightarrow> state \<Rightarrow> state" where
  "offerMenuOrHide env s =
     (case getRemoteMenuActions False s of
        (groups, s1) \<Rightarrow>
          (if length groups > 0 then
             renderRemoteStatusIndicator env ''$(remote)''
               (Some (TipString (localize env ''noHost.tooltip'' ''Open a Remote Window'' [])))
               None None s1
           else s1\<lparr> remoteStatusEntry := None \<rparr>))"

text \<open>The branch for a virtual workspace with a label; without one, the branches below it.\<close>

definition showVirtualWorkspace :: "services \<Rightarrow> state \<Rightarrow> state" where
  "showVirtualWorkspace env s =
     (case virtualWorkspaceLocation s of
        Some (scheme, authority) \<Rightarrow>
          (let workspaceLabel = getHostLabel env scheme authority in
           if workspaceLabel \<noteq> [] then
             renderRemoteStatusIndicator env
               (''$(remote) '' @ truncate workspaceLabel REMOTE_STATUS_LABEL_MAX_LENGTH)
               (Some (TipMarkdown
                  (hostTooltipParts env ''workspace.tooltip'' scheme authority workspaceLabel
                   @ (if \<not> isWeb \<or> truthy (remoteAuthority s) then
                        [AppendMarkdown [CHR 0x0A, CHR 0x0A],
                         AppendMarkdown
                           (localize env ''workspace.tooltip2''
                              ''Some [features are not available]({0}) for resources located on a virtual file system.''
                              [''command:'' @ LIST_WORKSPACE_UNSUPPORTED_EXTENSIONS_COMMAND_ID env])]
                      else []))))
               None None s
           else offerMenuOrHide env s)
      | None \<Rightarrow> offerMenuOrHide env s)"

definition updateRemoteStatusIndicator :: "services \<Rightarrow> state \<Rightarrow> state" where
  "updateRemoteStatusIndicator env s =
     (case windowIndicator s of
        Some remoteIndicator \<Rightarrow>
          (if truthy (remoteAuthority s) then
             renderRemoteStatusIndicator env
               (truncate (wi_label remoteIndicator) REMOTE_STATUS_LABEL_MAX_LENGTH)
               (Some (TipString (wi_tooltip remoteIndicator)))
               (Some (wi_command remoteIndicator)) None s
           else
             renderRemoteStatusIndicator env ''$(remote)''
               (Some (TipString (wi_tooltip remoteIndicator)))
               (Some (wi_command remoteIndicator)) None s)
      | None \<Rightarrow>
          (case remoteAuthority s of
             Some authority \<Rightarrow>
               (if authority \<noteq> [] \<and> \<not> isWeb then showRemoteHost env authority s
                else showVirtualWorkspace env s)
           | None \<Rightarrow> showVirtualWorkspace env s))"

section \<open>The connection state\<close>

fun connectionStateName :: "connection_state \<Rightarrow> string" where
  "connectionStateName Initializing = ''initializing''"
| "connectionStateName Connected = ''connected''"
| "connectionStateName Reconnecting = ''reconnecting''"
| "connectionStateName Disconnected = ''disconnected''"

definition setState :: "services \<Rightarrow> connection_state \<Rightarrow> state \<Rightarrow> state" where
  "setState env newState s =
     (if connectionState s \<noteq> Some newState then
        (let s1 = s\<lparr> connectionState := Some newState \<rparr>;
             s2 = (if connectionState s1 = Some Reconnecting
                   then s1\<lparr> connectionStateContextKey := ''disconnected'' \<rparr>
                   else s1\<lparr> connectionStateContextKey := connectionStateName newState \<rparr>)
         in updateRemoteStatusIndicator env s2)
      else s)"

text \<open>The listener on the state changes of the connection.\<close>

fun onDidStateChange :: "services \<Rightarrow> PersistentConnectionEventType \<Rightarrow> state \<Rightarrow> state" where
  "onDidStateChange env ConnectionLost s = setState env Reconnecting s"
| "onDidStateChange env ReconnectionRunning s = setState env Reconnecting s"
| "onDidStateChange env ReconnectionWait s = setState env Reconnecting s"
| "onDidStateChange env ReconnectionPermanentFailure s = setState env Disconnected s"
| "onDidStateChange env ConnectionGain s = setState env Connected s"

section \<open>The remote menu\<close>

fun getCategoryLabel :: "locstr option \<Rightarrow> string option" where
  "getCategoryLabel None = None"
| "getCategoryLabel (Some (Plain c)) = (if c \<noteq> [] then Some c else None)"
| "getCategoryLabel (Some (Localized v orig)) = Some v"

fun titleLabel :: "locstr \<Rightarrow> string" where
  "titleLabel (Plain t) = t"
| "titleLabel (Localized v orig) = v"

text \<open>
  \<open>new RegExp(source)\<close> for the pattern \<open>^remote_\d\d_NAME_\<close> (or
  \<open>^virtualfs_\d\d_SCHEME_\<close>), as its test. The name is put into the pattern source as it
  is. A name without special characters stands for itself and the pattern is the one
  written here. For any other name the pattern is what the runtime makes of the source
  text: it throws a \<open>SyntaxError\<close> when the source is not a pattern (a group that is not
  closed, a quantifier with nothing before it).
\<close>

definition currentRemotePattern :: "string \<Rightarrow> string \<Rightarrow> rx" where
  "currentRemotePattern kind name =
     Seq (lits kind) (Seq (lits ''_'') (Seq (Sym is_digit) (Seq (Sym is_digit)
       (Seq (lits ''_'') (Seq (lits name) (lits ''_''))))))"

definition newCurrentRemoteRegExp ::
  "services \<Rightarrow> string \<Rightarrow> string \<Rightarrow> error + (string \<Rightarrow> bool)" where
  "newCurrentRemoteRegExp env kind name =
     (if rx_literal name then Inr (rx_test_prefix (currentRemotePattern kind name))
      else
        (case regExp env
                (''^'' @ kind @ ''_'' @ [CHR 0x5C] @ ''d'' @ [CHR 0x5C] @ ''d_'' @ name @ ''_'') of
           None \<Rightarrow> Inl SyntaxError
         | Some test \<Rightarrow> Inr test))"

text \<open>\<open>matchCurrentRemote\<close>: a matcher, no matcher (\<open>undefined\<close>), or the exception.\<close>

definition matchVirtualWorkspace ::
  "services \<Rightarrow> state \<Rightarrow> error + (string \<Rightarrow> bool) option" where
  "matchVirtualWorkspace env s =
     (case virtualWorkspaceLocation s of
        Some (scheme, authority) \<Rightarrow>
          (case newCurrentRemoteRegExp env ''virtualfs'' scheme of
             Inl e \<Rightarrow> Inl e
           | Inr test \<Rightarrow> Inr (Some test))
      | None \<Rightarrow> Inr None)"

definition matchCurrentRemote ::
  "services \<Rightarrow> state \<Rightarrow> error + (string \<Rightarrow> bool) option" where
  "matchCurrentRemote env s =
     (case remoteAuthority s of
        Some authority \<Rightarrow>
          (if authority \<noteq> [] then
             (case newCurrentRemoteRegExp env ''remote'' (getRemoteName env authority) of
                Inl e \<Rightarrow> Inl e
              | Inr test \<Rightarrow> Inr (Some test))
           else matchVirtualWorkspace env s)
      | None \<Rightarrow> matchVirtualWorkspace env s)"

text \<open>
  \<open>Array.prototype.sort\<close> with a comparator is a stable sort; for a consistent comparator
  its result is the one of this insertion sort.
\<close>

fun insertBy :: "('a \<Rightarrow> 'a \<Rightarrow> int) \<Rightarrow> 'a \<Rightarrow> 'a list \<Rightarrow> 'a list" where
  "insertBy cmp x [] = [x]"
| "insertBy cmp x (y # ys) = (if cmp x y \<le> 0 then x # y # ys else y # insertBy cmp x ys)"

definition arraySort :: "('a \<Rightarrow> 'a \<Rightarrow> int) \<Rightarrow> 'a list \<Rightarrow> 'a list" where
  "arraySort cmp xs = foldr (insertBy cmp) xs []"

definition compareGroups ::
  "services \<Rightarrow> (string \<Rightarrow> bool) \<Rightarrow> ActionGroup \<Rightarrow> ActionGroup \<Rightarrow> int" where
  "compareGroups env currentRemoteMatcher g1 g2 =
     (let isCurrentRemote1 = currentRemoteMatcher (fst g1);
          isCurrentRemote2 = currentRemoteMatcher (fst g2)
      in if isCurrentRemote1 \<noteq> isCurrentRemote2
         then (if isCurrentRemote1 then - 1 else 1)
         else localeCompare env (fst g1) (fst g2))"

definition orderGroups ::
  "services \<Rightarrow> (string \<Rightarrow> bool) option \<Rightarrow> ActionGroup list \<Rightarrow> ActionGroup list" where
  "orderGroups env matcher actionGroups =
     (case matcher of
        Some currentRemoteMatcher \<Rightarrow> arraySort (compareGroups env currentRemoteMatcher) actionGroups
      | None \<Rightarrow> actionGroups)"

text \<open>
  The two nested loops over the groups and their actions; the accumulator is
  \<open>(items, lastCategoryName)\<close>, with \<open>hasGroupCategory\<close> inside a group.
\<close>

fun emitActions ::
  "menu_action list \<Rightarrow> quick_pick_item list \<times> string option \<times> bool
     \<Rightarrow> quick_pick_item list \<times> string option \<times> bool" where
  "emitActions [] acc = acc"
| "emitActions (SubmenuItemAction # as) acc = emitActions as acc"
| "emitActions (MenuItemAction i t c # as) (items, lastCategoryName, hasGroupCategory) =
     (if \<not> hasGroupCategory then
        (if getCategoryLabel c \<noteq> lastCategoryName then
           emitActions as
             (items @ [Separator (getCategoryLabel c)] @ [Item i (titleLabel t) False],
              getCategoryLabel c, True)
         else emitActions as (items @ [Item i (titleLabel t) False], lastCategoryName, True))
      else emitActions as (items @ [Item i (titleLabel t) False], lastCategoryName, True))"

fun emitGroups ::
  "ActionGroup list \<Rightarrow> quick_pick_item list \<times> string option
     \<Rightarrow> quick_pick_item list \<times> string option" where
  "emitGroups [] acc = acc"
| "emitGroups (actionGroup # rest) (items, lastCategoryName) =
     (case emitActions (snd actionGroup) (items, lastCategoryName, False) of
        (items1, lastCategoryName1, hasGroupCategory) \<Rightarrow>
          emitGroups rest (items1, lastCategoryName1))"

text \<open>The entries pushed after the plain separator.\<close>

definition closeEntries :: "services \<Rightarrow> state \<Rightarrow> quick_pick_item list" where
  "closeEntries env s =
     (if SHOW_CLOSE_REMOTE_COMMAND_ID then
        (if truthy (remoteAuthority s) then
           [Item CLOSE_REMOTE_COMMAND_ID
              (localize env ''closeRemoteConnection.title'' ''Close Remote Connection'' []) False]
           @ (if connectionState s = Some Disconnected
              then [Item (ReloadWindowAction_ID env) (localize env ''reloadWindow'' ''Reload Window'' []) False]
              else [])
         else if virtualWorkspaceLocation s \<noteq> None then
           [Item CLOSE_REMOTE_COMMAND_ID
              (localize env ''closeVirtualWorkspace.title'' ''Close Remote Workspace'' []) False]
         else [])
      else [])"

definition fixedEntries :: "services \<Rightarrow> state \<Rightarrow> quick_pick_item list" where
  "fixedEntries env s =
     closeEntries env s
     @ [Item CONNECT_REMOTE_COMMAND_ID
          (localize env ''connectRemoteConnection.title'' ''Connect Remote Connection'' []) False]
     @ [Separator None]
     @ [Item ''remote.logRemoteAuthority''
          (localize env ''remote.logRemoteAuthority'' ''Log Remote Authority'' []) False]
     @ [Item ''remote.logVirtualWorkspaceLocation''
          (localize env ''remote.logVirtualWorkspaceLocation'' ''Log Virtual Workspace Location'' [])
          False]
     @ [Item ''remote.logExtensionGalleryService''
          (localize env ''remote.logExtensionGalleryService'' ''Log Extension Gallery Service'' [])
          False]
     @ (if \<not> truthy (remoteAuthority s) \<and> virtualWorkspaceLocation s = None
           \<and> extensionGalleryEnabled env
        then [Item INSTALL_REMOTE_EXTENSIONS_ID
                (localize env ''installRemotes'' ''Install Additional Remote Extensions...'' [])
                True]
        else [])"

text \<open>
  The end of \<open>computeItems\<close>: the plain separator after the contributed items, the
  entries pushed after it, and the removal of the separator if nothing was pushed.
\<close>

definition appendFixedEntries ::
  "quick_pick_item list \<Rightarrow> quick_pick_item list \<Rightarrow> quick_pick_item list" where
  "appendFixedEntries contributed fixed =
     (let items = contributed @ [Separator None];
          entriesBeforeConfig = length items;
          items1 = items @ fixed
      in if length items1 = entriesBeforeConfig then butlast items1 else items1)"

text \<open>
  \<open>computeItems\<close>. An exception of \<open>matchCurrentRemote\<close> leaves it after the cache was
  rebuilt and before anything was sorted or pushed: there is no list then. Otherwise the
  sort is in place on the array that is also the cache, so the cache holds the reordered
  groups afterwards.
\<close>

definition computeItems ::
  "services \<Rightarrow> state \<Rightarrow> (error + quick_pick_item list) \<times> state" where
  "computeItems env s =
     (case getRemoteMenuActions True s of
        (groups, s1) \<Rightarrow>
          (case matchCurrentRemote env s1 of
             Inl e \<Rightarrow> (Inl e, s1)
           | Inr currentRemoteMatcher \<Rightarrow>
               (let actionGroups = orderGroups env currentRemoteMatcher groups;
                    s2 = s1\<lparr> remoteMenuActionsGroups := Some actionGroups \<rparr>
                in (Inr (appendFixedEntries (fst (emitGroups actionGroups ([], None)))
                           (fixedEntries env s2)),
                    s2))))"

text \<open>
  \<open>showRemoteMenu\<close>: the items are computed before the quick pick is shown, so an
  exception of \<open>computeItems\<close> leaves \<open>showRemoteMenu\<close> with no quick pick shown and the
  object as \<open>computeItems\<close> left it.
\<close>

definition showRemoteMenu :: "services \<Rightarrow> state \<Rightarrow> error option \<times> state" where
  "showRemoteMenu env s =
     (case computeItems env s of
        (Inl e, s1) \<Rightarrow> (Some e, s1)
      | (Inr items, s1) \<Rightarrow> (None, s1\<lparr> quickPick := Some items \<rparr>))"

section \<open>Construction and events\<close>

definition "constructor" ::
  "services \<Rightarrow> string option \<Rightarrow> (string \<times> string) option \<Rightarrow> ActionGroup list \<Rightarrow> ActionGroup list
     \<Rightarrow> state" where
  "constructor env authority workspaceLocation menu legacyMenu =
     (let s0 = \<lparr> remoteStatusEntry = None,
                 windowIndicator = Some defaultWindowIndicator,
                 remoteMenuActionsGroups = None,
                 remoteAuthority = authority,
                 virtualWorkspaceLocation = None,
                 connectionState = None,
                 connectionStateContextKey = [],
                 loggedInvalidGroupNames = Map.empty,
                 warnings = [],
                 remoteIndicatorMenu = menu,
                 legacyIndicatorMenu = legacyMenu,
                 asyncPhase = AwaitingExtensions,
                 quickPick = None \<rparr>;
          s1 = (if truthy authority
                then s0\<lparr> connectionState := Some Initializing,
                         connectionStateContextKey := connectionStateName Initializing \<rparr>
                else s0\<lparr> virtualWorkspaceLocation := workspaceLocation \<rparr>)
      in updateRemoteStatusIndicator env s1)"

datatype menu_source = RemoteIndicatorMenu | LegacyIndicatorMenu

text \<open>
  What can reach the object after its construction: a change of one of the two menus
  (with the groups it returns from then on), a change of the label formatters, an event
  of the connection, a change of the workbench state (with the virtual workspace
  location of the new workspace), the two continuations of
  \<open>updateWhenInstalledExtensionsRegistered\<close>, the menu command (an exception of it
  is its caller's business, the object goes on as the command left it), and the quick
  pick being accepted or hidden.
\<close>

datatype event =
    MenuChanged menu_source "ActionGroup list"
  | FormattersChanged
  | ConnectionStateChange PersistentConnectionEventType
  | WorkbenchStateChanged "(string \<times> string) option"
  | InstalledExtensionsRegistered
  | AuthorityResolved bool
  | ShowRemoteMenu
  | QuickPickAccepted
  | QuickPickHidden

definition setMenu :: "menu_source \<Rightarrow> ActionGroup list \<Rightarrow> state \<Rightarrow> state" where
  "setMenu src groups s =
     (case src of
        RemoteIndicatorMenu \<Rightarrow> s\<lparr> remoteIndicatorMenu := groups \<rparr>
      | LegacyIndicatorMenu \<Rightarrow> s\<lparr> legacyIndicatorMenu := groups \<rparr>)"

definition updateRemoteActions :: "services \<Rightarrow> state \<Rightarrow> state" where
  "updateRemoteActions env s =
     updateRemoteStatusIndicator env (s\<lparr> remoteMenuActionsGroups := None \<rparr>)"

text \<open>
  The listener of an open quick pick on menu changes: \<open>quickPick.items = computeItems()\<close>.
  An exception in it is caught by the emitter of the event, and the items stay.
\<close>

definition refreshQuickPick :: "services \<Rightarrow> state \<Rightarrow> state" where
  "refreshQuickPick env s =
     (case quickPick s of
        Some shown \<Rightarrow>
          (case computeItems env s of
             (Inl e, s1) \<Rightarrow> s1
           | (Inr items, s1) \<Rightarrow> s1\<lparr> quickPick := Some items \<rparr>)
      | None \<Rightarrow> s)"

fun step :: "services \<Rightarrow> event \<Rightarrow> state \<Rightarrow> state" where
  "step env (MenuChanged src groups) s =
     refreshQuickPick env (updateRemoteActions env (setMenu src groups s))"
| "step env FormattersChanged s = updateRemoteStatusIndicator env s"
| "step env (ConnectionStateChange e) s =
     (if truthy (remoteAuthority s) \<and> hasConnection env then onDidStateChange env e s else s)"
| "step env (WorkbenchStateChanged location) s =
     (if truthy (remoteAuthority s) then s
      else updateRemoteStatusIndicator env (s\<lparr> virtualWorkspaceLocation := location \<rparr>))"
| "step env InstalledExtensionsRegistered s =
     (if asyncPhase s = AwaitingExtensions then
        updateRemoteStatusIndicator env
          (s\<lparr> asyncPhase := (if truthy (remoteAuthority s) then AwaitingResolution else Settled) \<rparr>)
      else s)"
| "step env (AuthorityResolved ok) s =
     (if asyncPhase s = AwaitingResolution then
        setState env (if ok then Connected else Disconnected) (s\<lparr> asyncPhase := Settled \<rparr>)
      else s)"
| "step env ShowRemoteMenu s = snd (showRemoteMenu env s)"
| "step env QuickPickAccepted s = s\<lparr> quickPick := None \<rparr>"
| "step env QuickPickHidden s = s\<lparr> quickPick := None \<rparr>"

fun run :: "services \<Rightarrow> event list \<Rightarrow> state \<Rightarrow> state" where
  "run env [] s = s"
| "run env (e # es) s = run env es (step env e s)"

section \<open>The documented behaviour, and sample inputs\<close>

text \<open>
  The group key format as the specification words it:
  \<open>^(remote|virtualfs)_\d{2}_[a-z][a-z0-9+.-]*_.+$\<close>.
\<close>

definition specGroupKeyFormat :: rx where
  "specGroupKeyFormat =
     Seq (Alt (lits ''remote'') (lits ''virtualfs''))
    (Seq (lits ''_'')
    (Seq (Seq (Sym is_digit) (Sym is_digit))
    (Seq (lits ''_'')
    (Seq (Seq (Sym is_lower) (Star (Sym is_name_char)))
    (Seq (lits ''_'') (Seq (Sym dot) (Star (Sym dot))))))))"

text \<open>
  The coarse projection as the specification words it: empty without a state,
  \<open>disconnected\<close> for \<open>Reconnecting\<close>, the name of the state otherwise.
\<close>

fun coarseProjection :: "connection_state option \<Rightarrow> string" where
  "coarseProjection None = []"
| "coarseProjection (Some Initializing) = ''initializing''"
| "coarseProjection (Some Connected) = ''connected''"
| "coarseProjection (Some Reconnecting) = ''disconnected''"
| "coarseProjection (Some Disconnected) = ''disconnected''"

text \<open>
  Sample services: messages in the default language with \<open>{0}\<close> replaced by the first
  argument, the authority as its own label, no host tooltip, comparison by code units,
  the part of an authority before its first \<open>+\<close> as its name. The pattern source made
  from the name \<open>host(\<close> is refused (its group is not closed).
\<close>

fun subst0 :: "string \<Rightarrow> string \<Rightarrow> string" where
  "subst0 a (x # y # z # rest) =
     (if [x, y, z] = ''{0}'' then a @ subst0 a rest else x # subst0 a (y # z # rest))"
| "subst0 a msg = msg"

definition sampleCompare :: "string \<Rightarrow> string \<Rightarrow> int" where
  "sampleCompare a b = (if a < b then - 1 else if a = b then 0 else 1)"

definition sample_services :: services where
  "sample_services =
     \<lparr> localize = (\<lambda>key msg args. case args of [] \<Rightarrow> msg | a # rest \<Rightarrow> subst0 a msg),
       getHostLabel = (\<lambda>scheme authority. authority),
       getHostTooltip = (\<lambda>scheme authority. None),
       getCodiconAriaLabel = (\<lambda>t. t),
       localeCompare = sampleCompare,
       regExp = (\<lambda>source.
         if source = ''^remote_'' @ [CHR 0x5C] @ ''d'' @ [CHR 0x5C] @ ''d_host(_'' then None
         else Some (\<lambda>subject. False)),
       extensionGalleryEnabled = False,
       hasConnection = True,
       getRemoteName = takeWhile (\<lambda>c. c \<noteq> CHR ''+''),
       Schemas_vscodeRemote = ''vscode-remote'',
       LIST_WORKSPACE_UNSUPPORTED_EXTENSIONS_COMMAND_ID =
         ''workbench.extensions.action.listWorkspaceUnsupportedExtensions'',
       ReloadWindowAction_ID = ''workbench.action.reloadWindow'' \<rparr>"

definition sample_state :: state where
  "sample_state = constructor sample_services None None [] []"

text \<open>A remote window on \<open>myhost\<close> whose one resolution attempt has failed.\<close>

definition myhost_disconnected :: state where
  "myhost_disconnected =
     run sample_services [InstalledExtensionsRegistered, AuthorityResolved False]
       (constructor sample_services (Some ''myhost'') None [] [])"

section \<open>Proof vocabulary\<close>

text \<open>
  \<open>same_core s s'\<close>: the step from \<open>s\<close> to \<open>s'\<close> has left the override, the authority, the
  workspace location, the connection state, its context key and the pending
  continuation as they were.
\<close>

definition same_core :: "state \<Rightarrow> state \<Rightarrow> bool" where
  "same_core s s' =
     (windowIndicator s' = windowIndicator s \<and> remoteAuthority s' = remoteAuthority s
      \<and> virtualWorkspaceLocation s' = virtualWorkspaceLocation s
      \<and> connectionState s' = connectionState s
      \<and> connectionStateContextKey s' = connectionStateContextKey s
      \<and> asyncPhase s' = asyncPhase s)"

text \<open>The context key is the coarse projection of the connection state.\<close>

definition key_inv :: "state \<Rightarrow> bool" where
  "key_inv s = (connectionStateContextKey s = coarseProjection (connectionState s))"

text \<open>A window without an authority has no connection state and waits for no resolution.\<close>

definition local_inv :: "state \<Rightarrow> bool" where
  "local_inv s =
     (connectionState s = None \<and> asyncPhase s \<noteq> AwaitingResolution
      \<and> \<not> truthy (remoteAuthority s))"

text \<open>The override is the initial one and the status entry is there.\<close>

definition override_inv :: "state \<Rightarrow> bool" where
  "override_inv s = (windowIndicator s = Some defaultWindowIndicator \<and> remoteStatusEntry s \<noteq> None)"

text \<open>The state a connection event asks \<open>setState\<close> for.\<close>

fun eventTarget :: "PersistentConnectionEventType \<Rightarrow> connection_state" where
  "eventTarget ConnectionLost = Reconnecting"
| "eventTarget ReconnectionRunning = Reconnecting"
| "eventTarget ReconnectionWait = Reconnecting"
| "eventTarget ReconnectionPermanentFailure = Disconnected"
| "eventTarget ConnectionGain = Connected"

text \<open>
  The log holds no warning twice, and every warning in it is for a rejected key that is
  marked as logged.
\<close>

definition log_inv :: "state \<Rightarrow> bool" where
  "log_inv s =
     (distinct (warnings s)
      \<and> (\<forall>m\<in>set (warnings s). \<exists>g. m = invalidGroupWarning g \<and> \<not> rx_match groupNameRegExp g
            \<and> loggedInvalidGroupNames s g = Some True))"

text \<open>A local window whose menu holds the invalid group \<open>foo\<close>, after the menu was shown twice.\<close>

definition foo_menu_twice :: state where
  "foo_menu_twice =
     run sample_services [ShowRemoteMenu, ShowRemoteMenu]
       (constructor sample_services None None [(''foo'', [])] [])"



text \<open>A local window with two valid groups, an invalid one and a legacy group.\<close>

definition menu_sample :: state where
  "menu_sample =
     constructor sample_services None None
       [(''remote_00_ssh_x'', []), (''foo'', []), (''virtualfs_01_git_y'', [])]
       [(''legacy'', [])]"

text \<open>
  The items of the plain menu actions of a group, and the category of a group: the
  category of its first plain menu action, if it has one.
\<close>

fun actionItems :: "menu_action list \<Rightarrow> quick_pick_item list" where
  "actionItems [] = []"
| "actionItems (SubmenuItemAction # as) = actionItems as"
| "actionItems (MenuItemAction i t c # as) = Item i (titleLabel t) False # actionItems as"

fun firstCategory :: "menu_action list \<Rightarrow> string option option" where
  "firstCategory [] = None"
| "firstCategory (SubmenuItemAction # as) = firstCategory as"
| "firstCategory (MenuItemAction i t c # as) = Some (getCategoryLabel c)"

text \<open>
  The contributed items as the specification words them: group by group, a separator
  labeled with the category of the group before its items when that category differs
  from the preceding one, and nothing for a group without plain menu actions.
\<close>

fun contributedItems :: "string option \<Rightarrow> ActionGroup list \<Rightarrow> quick_pick_item list" where
  "contributedItems preceding [] = []"
| "contributedItems preceding (g # gs) =
     (case firstCategory (snd g) of
        None \<Rightarrow> contributedItems preceding gs
      | Some category \<Rightarrow>
          (if category \<noteq> preceding then [Separator category] else [])
          @ actionItems (snd g) @ contributedItems category gs)"

text \<open>The labels of the separators of a list of items, and the label of the last one.\<close>

definition is_separator :: "quick_pick_item \<Rightarrow> bool" where
  "is_separator it = (case it of Separator l \<Rightarrow> True | Item i t b \<Rightarrow> False)"

fun separatorLabels :: "quick_pick_item list \<Rightarrow> string option list" where
  "separatorLabels [] = []"
| "separatorLabels (Separator l # items) = l # separatorLabels items"
| "separatorLabels (Item i t b # items) = separatorLabels items"

definition lastSeparatorLabel :: "quick_pick_item list \<Rightarrow> string option" where
  "lastSeparatorLabel items =
     (if separatorLabels items = [] then None else last (separatorLabels items))"


text \<open>
  A group of two actions of the category \<open>Docker\<close>, and a local window whose legacy menu
  holds it twice.
\<close>

definition docker_group :: ActionGroup where
  "docker_group =
     (''remote_00_docker_a'',
      [MenuItemAction ''docker.attach'' (Plain ''Attach'') (Some (Plain ''Docker'')),
       MenuItemAction ''docker.build'' (Plain ''Build'') (Some (Localized ''Docker'' ''Docker''))])"

definition docker_window :: state where
  "docker_window = constructor sample_services None None [] [docker_group, docker_group]"

text \<open>A remote window on \<open>host(\<close>, a name that makes no pattern.\<close>

definition refused_window :: state where
  "refused_window = constructor sample_services (Some ''host('') None [] []"

section \<open>Facts about the regular expressions\<close>

lemma star_Nil: "[] \<in> star L"
proof -
  have "concat ([]::string list) = []" "set ([]::string list) \<subseteq> L" by simp_all
  then show ?thesis unfolding star_def by (auto intro: exI [of _ "[]"])
qed

lemma star_step: "u \<in> L \<Longrightarrow> v \<in> star L \<Longrightarrow> u @ v \<in> star L"
proof -
  assume u: "u \<in> L" and "v \<in> star L"
  then obtain ws where ws: "v = concat ws" "set ws \<subseteq> L" unfolding star_def by blast
  then have "u @ v = concat (u # ws)" "set (u # ws) \<subseteq> L" using u by simp_all
  then show ?thesis unfolding star_def by blast
qed

lemma concat_Cons_split:
  "concat ws = c # w \<Longrightarrow> set ws \<subseteq> L \<Longrightarrow>
     \<exists>u v. w = u @ v \<and> c # u \<in> L \<and> v \<in> star L"
proof (induction ws)
  case Nil
  then show ?case by simp
next
  case (Cons x xs)
  show ?case
  proof (cases x)
    case Nil
    with Cons show ?thesis by simp
  next
    case (Cons a u)
    with Cons.prems have "a = c" "w = u @ concat xs" "c # u \<in> L" "set xs \<subseteq> L" by auto
    moreover have "concat xs \<in> star L" using \<open>set xs \<subseteq> L\<close> unfolding star_def by blast
    ultimately show ?thesis by blast
  qed
qed

lemma star_Cons_iff:
  "c # w \<in> star L \<longleftrightarrow> (\<exists>u v. w = u @ v \<and> c # u \<in> L \<and> v \<in> star L)"
proof
  assume "c # w \<in> star L"
  then obtain ws where "concat ws = c # w" "set ws \<subseteq> L" unfolding star_def by auto
  then show "\<exists>u v. w = u @ v \<and> c # u \<in> L \<and> v \<in> star L" by (rule concat_Cons_split)
next
  assume "\<exists>u v. w = u @ v \<and> c # u \<in> L \<and> v \<in> star L"
  then obtain u v where "w = u @ v" "c # u \<in> L" "v \<in> star L" by blast
  then show "c # w \<in> star L" using star_step [of "c # u" L v] by simp
qed

lemma nullable_iff: "nullable r \<longleftrightarrow> [] \<in> lang r"
  by (induction r) (auto simp: star_Nil)

lemma lang_deriv: "lang (deriv c r) = {w. c # w \<in> lang r}"
proof (induction r)
  case (Seq r s)
  then show ?case by (auto simp: nullable_iff Cons_eq_append_conv)
next
  case (Star r)
  then show ?case by (auto simp: star_Cons_iff)
qed auto

lemma rx_match_iff: "rx_match r s \<longleftrightarrow> s \<in> lang r"
  by (induction s arbitrary: r) (simp_all add: nullable_iff lang_deriv)

lemma lang_lits: "lang (lits s) = {s}"
  by (induction s) auto

lemma star_Sym: "star {[c] | c. p c} = {w. \<forall>c\<in>set w. p c}"
proof (rule set_eqI)
  fix w
  show "w \<in> star {[c] | c. p c} \<longleftrightarrow> w \<in> {w. \<forall>c\<in>set w. p c}"
  proof (induction w)
    case Nil
    show ?case by (simp add: star_Nil)
  next
    case (Cons a w)
    then show ?case by (auto simp: star_Cons_iff)
  qed
qed

lemma in_Seq: "s \<in> lang (Seq r t) \<longleftrightarrow> (\<exists>u v. s = u @ v \<and> u \<in> lang r \<and> v \<in> lang t)"
  by auto

lemma Seq_I: "u \<in> lang r \<Longrightarrow> v \<in> lang t \<Longrightarrow> u @ v \<in> lang (Seq r t)"
  by auto

lemma in_Alt: "s \<in> lang (Alt r t) \<longleftrightarrow> s \<in> lang r \<or> s \<in> lang t"
  by simp

lemma in_Sym: "s \<in> lang (Sym p) \<longleftrightarrow> (\<exists>c. s = [c] \<and> p c)"
  by auto

lemma in_lits: "s \<in> lang (lits w) \<longleftrightarrow> s = w"
  by (simp add: lang_lits)

lemma in_Star_Sym: "s \<in> lang (Star (Sym p)) \<longleftrightarrow> (\<forall>c\<in>set s. p c)"
  by (simp add: star_Sym)

lemma lang_groupNameRegExp:
  "s \<in> lang groupNameRegExp \<longleftrightarrow>
     (\<exists>p d1 d2 n ns g. s = p @ ''_'' @ [d1, d2] @ ''_'' @ (n # ns) @ ''_'' @ g \<and>
        (p = ''remote'' \<or> p = ''virtualfs'') \<and> is_digit d1 \<and> is_digit d2 \<and>
        is_lower n \<and> (\<forall>c\<in>set ns. is_name_char c) \<and> (\<forall>c\<in>set g. \<not> line_terminator c))"
  (is "?L \<longleftrightarrow> ?R")
proof
  assume ?L
  then obtain p d1 d2 n ns g where
    "s = p @ ''_'' @ ([d1] @ [d2]) @ ''_'' @ ([n] @ ns) @ ''_'' @ g"
    "p = ''remote'' \<or> p = ''virtualfs''" "is_digit d1" "is_digit d2" "is_lower n"
    "\<forall>c\<in>set ns. is_name_char c" "\<forall>c\<in>set g. \<not> line_terminator c"
    unfolding groupNameRegExp_def in_Seq in_Alt in_Sym in_lits in_Star_Sym dot_def
    by blast
  then show ?R
    by (intro exI [of _ p] exI [of _ d1] exI [of _ d2] exI [of _ n] exI [of _ ns] exI [of _ g]) simp
next
  assume ?R
  then obtain p d1 d2 n ns g where
    s: "s = p @ ''_'' @ [d1, d2] @ ''_'' @ (n # ns) @ ''_'' @ g" and
    props: "p = ''remote'' \<or> p = ''virtualfs''" "is_digit d1" "is_digit d2" "is_lower n"
    "\<forall>c\<in>set ns. is_name_char c" "\<forall>c\<in>set g. \<not> line_terminator c"
    by blast
  from s have s': "s = p @ (''_'' @ (([d1] @ [d2]) @ (''_'' @ (([n] @ ns) @ (''_'' @ g)))))"
    by simp
  have p: "p \<in> lang (Alt (lits ''remote'') (lits ''virtualfs''))"
    using props(1) by (auto simp: lang_lits)
  have parts: "[d1] \<in> lang (Sym is_digit)" "[d2] \<in> lang (Sym is_digit)"
    "[n] \<in> lang (Sym is_lower)" "ns \<in> lang (Star (Sym is_name_char))"
    "g \<in> lang (Star (Sym dot))" "''_'' \<in> lang (lits ''_'')"
    using props by (simp_all add: in_Star_Sym in_Sym dot_def in_lits del: lang.simps lits.simps)
  show ?L
    unfolding groupNameRegExp_def s' by (intro Seq_I p parts)
qed

lemma lang_plus_subset_star: "lang (Seq (Sym p) (Star (Sym p))) \<subseteq> lang (Star (Sym p))"
proof
  fix w assume "w \<in> lang (Seq (Sym p) (Star (Sym p)))"
  then obtain c v where "w = [c] @ v" "p c" "v \<in> lang (Star (Sym p))"
    unfolding in_Seq in_Sym by blast
  then show "w \<in> lang (Star (Sym p))" by (simp add: in_Star_Sym del: lang.simps)
qed

lemma Seq_mono_sub: "lang t \<subseteq> lang t' \<Longrightarrow> lang (Seq r t) \<subseteq> lang (Seq r t')"
  by auto

lemma specGroupKeyFormat_subset: "lang specGroupKeyFormat \<subseteq> lang groupNameRegExp"
  unfolding specGroupKeyFormat_def groupNameRegExp_def
  by (intro Seq_mono_sub lang_plus_subset_star)

lemma fst_validatedGroup: "fst (validatedGroup g s) = rx_match groupNameRegExp g"
  by (simp add: validatedGroup_def)

section \<open>The group key validator\<close>

text \<open>
  C5, as the code has it. \<open>validatedGroup\<close> accepts a key exactly when it is
  \<open>remote\<close> or \<open>virtualfs\<close>, an underscore, two digits, an underscore, a name that starts
  with a lower-case letter and goes on with characters of \<open>[a-z0-9+.-]\<close>, an underscore,
  and a grouping tag without line terminators that may be empty. Every key of the
  documented format (which asks for a non-empty tag) is accepted. The keys
  \<open>remote_00_ssh_auth\<close> and \<open>virtualfs_12_github_browse\<close> are accepted, \<open>foo_00_bar_baz\<close>
  and \<open>remote_1_ssh_x\<close> are rejected.
\<close>

theorem validatedGroup_accepts_iff:
  "(fst (validatedGroup g s) \<longleftrightarrow>
      (\<exists>p d1 d2 n ns t. g = p @ ''_'' @ [d1, d2] @ ''_'' @ (n # ns) @ ''_'' @ t \<and>
         (p = ''remote'' \<or> p = ''virtualfs'') \<and> is_digit d1 \<and> is_digit d2 \<and>
         is_lower n \<and> (\<forall>c\<in>set ns. is_name_char c) \<and> (\<forall>c\<in>set t. \<not> line_terminator c)))
   \<and> (rx_match specGroupKeyFormat g \<longrightarrow> fst (validatedGroup g s))
   \<and> fst (validatedGroup ''remote_00_ssh_auth'' s)
   \<and> fst (validatedGroup ''virtualfs_12_github_browse'' s)
   \<and> \<not> fst (validatedGroup ''foo_00_bar_baz'' s)
   \<and> \<not> fst (validatedGroup ''remote_1_ssh_x'' s)"
proof -
  have a: "rx_match groupNameRegExp ''remote_00_ssh_auth''" by code_simp
  have b: "rx_match groupNameRegExp ''virtualfs_12_github_browse''" by code_simp
  have c: "\<not> rx_match groupNameRegExp ''foo_00_bar_baz''" by code_simp
  have d: "\<not> rx_match groupNameRegExp ''remote_1_ssh_x''" by code_simp
  have e: "rx_match specGroupKeyFormat g \<longrightarrow> rx_match groupNameRegExp g"
    using specGroupKeyFormat_subset by (auto simp: rx_match_iff)
  show ?thesis
    unfolding fst_validatedGroup using a b c d e
    by (simp add: rx_match_iff lang_groupNameRegExp)
qed

theorem validatedGroup_accepts_iff_witness:
  "fst (validatedGroup ''remote_00_ssh_x'' sample_state)
   \<and> (\<exists>p d1 d2 n ns t. ''remote_00_ssh_x'' = p @ ''_'' @ [d1, d2] @ ''_'' @ (n # ns) @ ''_'' @ t \<and>
         (p = ''remote'' \<or> p = ''virtualfs'') \<and> is_digit d1 \<and> is_digit d2 \<and>
         is_lower n \<and> (\<forall>c\<in>set ns. is_name_char c) \<and> (\<forall>c\<in>set t. \<not> line_terminator c))
   \<and> rx_match specGroupKeyFormat ''remote_00_ssh_x''"
proof -
  have a: "rx_match groupNameRegExp ''remote_00_ssh_x''" by code_simp
  have b: "rx_match specGroupKeyFormat ''remote_00_ssh_x''" by code_simp
  from a have "fst (validatedGroup ''remote_00_ssh_x'' sample_state)"
    by (simp add: fst_validatedGroup)
  with b show ?thesis
    using validatedGroup_accepts_iff [of "''remote_00_ssh_x''" sample_state] by blast
qed

text \<open>
  C5 as stated fails: the key \<open>remote_00_ssh_\<close>, with an empty grouping tag, does not
  match the documented format and is accepted.
\<close>

theorem validatedGroup_empty_tag_counterexample:
  "\<not> (fst (validatedGroup ''remote_00_ssh_'' sample_state)
        \<longleftrightarrow> rx_match specGroupKeyFormat ''remote_00_ssh_'')"
proof -
  have a: "rx_match groupNameRegExp ''remote_00_ssh_''" by code_simp
  have b: "\<not> rx_match specGroupKeyFormat ''remote_00_ssh_''" by code_simp
  show ?thesis using a b by (simp add: fst_validatedGroup)
qed

section \<open>What the operations leave unchanged\<close>

lemma same_core_refl: "same_core s s"
  by (simp add: same_core_def)

lemma same_core_trans: "same_core s t \<Longrightarrow> same_core t u \<Longrightarrow> same_core s u"
  by (simp add: same_core_def)

lemma same_core_validatedGroup: "same_core s (snd (validatedGroup g s))"
  by (simp add: validatedGroup_def same_core_def)

lemma same_core_filterValidated: "same_core s (snd (filterValidated gs s))"
proof (induction gs arbitrary: s)
  case Nil
  show ?case by (simp add: same_core_refl)
next
  case (Cons a gs)
  have "same_core s (snd (validatedGroup (fst a) s))" by (rule same_core_validatedGroup)
  moreover have "same_core (snd (validatedGroup (fst a) s))
      (snd (filterValidated gs (snd (validatedGroup (fst a) s))))" by (rule Cons.IH)
  ultimately show ?case
    by (auto simp: split: prod.splits intro: same_core_trans)
qed

lemma same_core_getRemoteMenuActions: "same_core s (snd (getRemoteMenuActions b s))"
  using same_core_filterValidated [of s "remoteIndicatorMenu s"]
  by (auto simp: getRemoteMenuActions_def same_core_def split: option.splits prod.splits)

lemma same_core_defaultCommand: "same_core s (snd (defaultCommand c s))"
  using same_core_getRemoteMenuActions [of s False]
  by (auto simp: defaultCommand_def same_core_def split: option.splits prod.splits)

lemma same_core_render: "same_core s (renderRemoteStatusIndicator env t tip c p s)"
  using same_core_defaultCommand [of s c]
  by (auto simp: renderRemoteStatusIndicator_def same_core_def split: prod.splits)

lemma same_core_offer: "same_core s (offerMenuOrHide env s)"
proof -
  obtain gs s1 where g: "getRemoteMenuActions False s = (gs, s1)" by (cases "getRemoteMenuActions False s")
  then have 1: "same_core s s1" using same_core_getRemoteMenuActions [of s False] by simp
  have 2: "same_core s1 (s1\<lparr>remoteStatusEntry := None\<rparr>)" by (simp add: same_core_def)
  show ?thesis using g 1 2 same_core_render [of s1 env]
    by (auto simp: offerMenuOrHide_def intro: same_core_trans)
qed

lemma same_core_showVirtualWorkspace: "same_core s (showVirtualWorkspace env s)"
  by (auto simp: showVirtualWorkspace_def Let_def same_core_render same_core_offer split: option.splits)

lemma same_core_showRemoteHost: "same_core s (showRemoteHost env a s)"
  by (auto simp: showRemoteHost_def Let_def same_core_render split: option.splits connection_state.splits)

lemma same_core_update: "same_core s (updateRemoteStatusIndicator env s)"
  by (auto simp: updateRemoteStatusIndicator_def same_core_render same_core_showRemoteHost
      same_core_showVirtualWorkspace split: option.splits)

lemma same_core_computeItems: "same_core s (snd (computeItems env s))"
  using same_core_getRemoteMenuActions [of s True]
  by (auto simp: computeItems_def Let_def same_core_def split: prod.splits sum.splits)

lemma same_core_showRemoteMenu: "same_core s (snd (showRemoteMenu env s))"
  using same_core_computeItems [of s env]
  by (auto simp: showRemoteMenu_def same_core_def split: prod.splits sum.splits)

lemma same_core_refreshQuickPick: "same_core s (refreshQuickPick env s)"
  using same_core_computeItems [of s env]
  by (auto simp: refreshQuickPick_def same_core_def split: option.splits prod.splits sum.splits)


lemma connectionState_setState: "connectionState (setState env n s) = Some n"
  using same_core_update [of "s\<lparr>connectionState := Some n, connectionStateContextKey := ''disconnected''\<rparr>" env]
    same_core_update [of "s\<lparr>connectionState := Some n, connectionStateContextKey := connectionStateName n\<rparr>" env]
  by (auto simp: setState_def Let_def same_core_def)

lemma key_setState:
  "connectionStateContextKey s = coarseProjection (connectionState s) \<Longrightarrow>
   connectionStateContextKey (setState env n s) = coarseProjection (Some n)"
  using same_core_update [of "s\<lparr>connectionState := Some n, connectionStateContextKey := ''disconnected''\<rparr>" env]
    same_core_update [of "s\<lparr>connectionState := Some n, connectionStateContextKey := connectionStateName n\<rparr>" env]
  by (cases n) (auto simp: setState_def Let_def same_core_def)

lemma frame_setState:
  "windowIndicator (setState env n s) = windowIndicator s
   \<and> remoteAuthority (setState env n s) = remoteAuthority s
   \<and> virtualWorkspaceLocation (setState env n s) = virtualWorkspaceLocation s
   \<and> asyncPhase (setState env n s) = asyncPhase s"
  using same_core_update [of "s\<lparr>connectionState := Some n, connectionStateContextKey := ''disconnected''\<rparr>" env]
    same_core_update [of "s\<lparr>connectionState := Some n, connectionStateContextKey := connectionStateName n\<rparr>" env]
  by (auto simp: setState_def Let_def same_core_def)


lemma key_inv_same_core: "same_core s s' \<Longrightarrow> key_inv s \<Longrightarrow> key_inv s'"
  by (simp add: same_core_def key_inv_def)

lemma key_inv_setState: "key_inv s \<Longrightarrow> key_inv (setState env n s)"
  by (simp add: key_inv_def key_setState connectionState_setState)

lemma key_inv_step: "key_inv s \<Longrightarrow> key_inv (step env e s)"
proof (cases e)
  case (MenuChanged src gs)
  assume k: "key_inv s"
  have "key_inv (setMenu src gs s)" using k by (simp add: key_inv_def setMenu_def split: menu_source.splits)
  then have "key_inv (setMenu src gs s\<lparr>remoteMenuActionsGroups := None\<rparr>)" by (simp add: key_inv_def)
  then have "key_inv (updateRemoteActions env (setMenu src gs s))"
    unfolding updateRemoteActions_def by (rule key_inv_same_core [OF same_core_update])
  then show ?thesis using MenuChanged
    by (auto intro: key_inv_same_core [OF same_core_refreshQuickPick])
next
  case (ConnectionStateChange ev)
  assume "key_inv s"
  then show ?thesis using ConnectionStateChange by (cases ev) (auto intro: key_inv_setState)
next
  case (WorkbenchStateChanged loc)
  assume k: "key_inv s"
  then have "key_inv (s\<lparr>virtualWorkspaceLocation := loc\<rparr>)" by (simp add: key_inv_def)
  then show ?thesis using WorkbenchStateChanged k
    by (auto intro: key_inv_same_core [OF same_core_update])
next
  case InstalledExtensionsRegistered
  assume k: "key_inv s"
  then have "\<And>p. key_inv (s\<lparr>asyncPhase := p\<rparr>)" by (simp add: key_inv_def)
  then show ?thesis using InstalledExtensionsRegistered k
    by (auto intro: key_inv_same_core [OF same_core_update])
next
  case (AuthorityResolved ok)
  assume k: "key_inv s"
  then have "key_inv (s\<lparr>asyncPhase := Settled\<rparr>)" by (simp add: key_inv_def)
  then show ?thesis using AuthorityResolved k by (auto intro: key_inv_setState)
next
  case FormattersChanged
  assume "key_inv s"
  then show ?thesis using FormattersChanged
    by (auto intro: key_inv_same_core [OF same_core_update])
next
  case ShowRemoteMenu
  assume "key_inv s"
  then show ?thesis using ShowRemoteMenu
    by (auto intro: key_inv_same_core [OF same_core_showRemoteMenu])
qed (auto simp: key_inv_def)

lemma key_inv_run: "key_inv s \<Longrightarrow> key_inv (run env evs s)"
  by (induction evs arbitrary: s) (auto intro: key_inv_step)

lemma constructor_fields:
  "windowIndicator (constructor env a w m l) = Some defaultWindowIndicator"
  "remoteAuthority (constructor env a w m l) = a"
  "asyncPhase (constructor env a w m l) = AwaitingExtensions"
  "connectionState (constructor env a w m l) = (if truthy a then Some Initializing else None)"
  "connectionStateContextKey (constructor env a w m l) = (if truthy a then ''initializing'' else [])"
  "virtualWorkspaceLocation (constructor env a w m l) = (if truthy a then None else w)"
  unfolding constructor_def Let_def
  using same_core_update [of _ env, unfolded same_core_def]
  by simp_all

lemma key_inv_constructor: "key_inv (constructor env a w m l)"
  by (simp add: key_inv_def constructor_fields)

lemma coarse_not_reconnecting: "coarseProjection c \<noteq> ''reconnecting''"
  by (cases c rule: coarseProjection.cases) simp_all



lemma local_inv_same_core: "same_core s s' \<Longrightarrow> local_inv s \<Longrightarrow> local_inv s'"
  by (simp add: same_core_def local_inv_def)

lemma local_inv_step: "local_inv s \<Longrightarrow> local_inv (step env e s)"
proof (cases e)
  case (MenuChanged src gs)
  assume k: "local_inv s"
  have "local_inv (setMenu src gs s)" using k by (simp add: local_inv_def setMenu_def split: menu_source.splits)
  then have "local_inv (setMenu src gs s\<lparr>remoteMenuActionsGroups := None\<rparr>)" by (simp add: local_inv_def)
  then have "local_inv (updateRemoteActions env (setMenu src gs s))"
    unfolding updateRemoteActions_def by (rule local_inv_same_core [OF same_core_update])
  then show ?thesis using MenuChanged
    by (auto intro: local_inv_same_core [OF same_core_refreshQuickPick])
next
  case (ConnectionStateChange ev)
  assume "local_inv s"
  then show ?thesis using ConnectionStateChange by (simp add: local_inv_def)
next
  case (WorkbenchStateChanged loc)
  assume k: "local_inv s"
  then have "local_inv (s\<lparr>virtualWorkspaceLocation := loc\<rparr>)" by (simp add: local_inv_def)
  then show ?thesis using WorkbenchStateChanged k
    by (auto intro: local_inv_same_core [OF same_core_update])
next
  case InstalledExtensionsRegistered
  assume k: "local_inv s"
  then have "local_inv (s\<lparr>asyncPhase := Settled\<rparr>)" by (simp add: local_inv_def)
  then show ?thesis using InstalledExtensionsRegistered k
    by (auto simp: local_inv_def [of s] intro: local_inv_same_core [OF same_core_update])
next
  case (AuthorityResolved ok)
  assume k: "local_inv s"
  then show ?thesis using AuthorityResolved by (simp add: local_inv_def)
next
  case FormattersChanged
  assume "local_inv s"
  then show ?thesis using FormattersChanged
    by (auto intro: local_inv_same_core [OF same_core_update])
next
  case ShowRemoteMenu
  assume "local_inv s"
  then show ?thesis using ShowRemoteMenu
    by (auto intro: local_inv_same_core [OF same_core_showRemoteMenu])
qed (auto simp: local_inv_def)

lemma local_inv_run: "local_inv s \<Longrightarrow> local_inv (run env evs s)"
  by (induction evs arbitrary: s) (auto intro: local_inv_step)

section \<open>The coarse connection state\<close>

text \<open>
  C4. After any sequence of events the context key is the coarse projection of the
  connection state: it is never \<open>reconnecting\<close>; it is \<open>disconnected\<close> while the state is
  \<open>Reconnecting\<close>, and otherwise the name of the state, empty when there is none. At
  construction it is \<open>initializing\<close> with an authority and empty without one, and without
  an authority it stays empty.
\<close>

theorem context_key_is_coarse_projection:
  "connectionStateContextKey (run env evs (constructor env authority ws menu legacy))
     = coarseProjection (connectionState (run env evs (constructor env authority ws menu legacy)))
   \<and> connectionStateContextKey (run env evs (constructor env authority ws menu legacy)) \<noteq> ''reconnecting''
   \<and> (connectionState (run env evs (constructor env authority ws menu legacy)) = Some Reconnecting \<longrightarrow>
        connectionStateContextKey (run env evs (constructor env authority ws menu legacy)) = ''disconnected'')
   \<and> (connectionState (run env evs (constructor env authority ws menu legacy)) \<noteq> Some Reconnecting \<longrightarrow>
        connectionStateContextKey (run env evs (constructor env authority ws menu legacy))
          = (case connectionState (run env evs (constructor env authority ws menu legacy)) of
               None \<Rightarrow> [] | Some c \<Rightarrow> connectionStateName c))
   \<and> connectionStateContextKey (constructor env authority ws menu legacy)
        = (if truthy authority then ''initializing'' else [])
   \<and> (\<not> truthy authority \<longrightarrow>
        connectionStateContextKey (run env evs (constructor env authority ws menu legacy)) = [])"
proof -
  let ?s = "run env evs (constructor env authority ws menu legacy)"
  have k: "connectionStateContextKey ?s = coarseProjection (connectionState ?s)"
    using key_inv_run [OF key_inv_constructor] by (simp add: key_inv_def)
  have l: "\<not> truthy authority \<Longrightarrow> connectionState ?s = None"
  proof -
    assume "\<not> truthy authority"
    then have "local_inv (constructor env authority ws menu legacy)"
      by (simp add: local_inv_def constructor_fields)
    then show ?thesis using local_inv_run by (simp add: local_inv_def)
  qed
  have c: "connectionState ?s \<noteq> Some Reconnecting \<Longrightarrow>
     coarseProjection (connectionState ?s) = (case connectionState ?s of None \<Rightarrow> [] | Some c \<Rightarrow> connectionStateName c)"
    by (cases "connectionState ?s" rule: coarseProjection.cases) simp_all
  show ?thesis using k l c by (auto simp: coarse_not_reconnecting constructor_fields simp del: run.simps)
qed

theorem context_key_is_coarse_projection_witness:
  "connectionState
     (run sample_services [ConnectionStateChange ConnectionLost]
        (constructor sample_services (Some ''myhost'') None [] [])) = Some Reconnecting
   \<and> connectionStateContextKey
     (run sample_services [ConnectionStateChange ConnectionLost]
        (constructor sample_services (Some ''myhost'') None [] [])) = ''disconnected''"
proof -
  have a: "connectionState
     (run sample_services [ConnectionStateChange ConnectionLost]
        (constructor sample_services (Some ''myhost'') None [] [])) = Some Reconnecting"
    by code_simp
  show ?thesis
    using a context_key_is_coarse_projection
      [of sample_services "[ConnectionStateChange ConnectionLost]" "Some ''myhost''" None "[]" "[]"]
    by blast
qed

section \<open>The connection state machine\<close>

lemma onDidStateChange_setState: "onDidStateChange env e s = setState env (eventTarget e) s"
  by (cases e) simp_all

lemma step_extensions:
  "asyncPhase s = AwaitingExtensions \<Longrightarrow> truthy (remoteAuthority s) \<Longrightarrow>
   asyncPhase (step env InstalledExtensionsRegistered s) = AwaitingResolution
   \<and> remoteAuthority (step env InstalledExtensionsRegistered s) = remoteAuthority s
   \<and> connectionState (step env InstalledExtensionsRegistered s) = connectionState s"
  using same_core_update [of "s\<lparr>asyncPhase := AwaitingResolution\<rparr>" env]
  by (simp add: same_core_def)

lemma step_connection:
  "truthy (remoteAuthority s) \<Longrightarrow> hasConnection env \<Longrightarrow>
   connectionState (step env (ConnectionStateChange e) s) = Some (eventTarget e)
   \<and> asyncPhase (step env (ConnectionStateChange e) s) = asyncPhase s
   \<and> remoteAuthority (step env (ConnectionStateChange e) s) = remoteAuthority s"
  by (simp add: onDidStateChange_setState connectionState_setState frame_setState)

lemma step_resolved:
  "asyncPhase s = AwaitingResolution \<Longrightarrow>
   connectionState (step env (AuthorityResolved ok) s) = Some (if ok then Connected else Disconnected)
   \<and> remoteAuthority (step env (AuthorityResolved ok) s) = remoteAuthority s"
  by (simp add: connectionState_setState frame_setState)

text \<open>
  C3, as the code has it. With an authority and a connection, the state starts at
  \<open>Initializing\<close>. A \<open>ConnectionGain\<close> followed by the failure of the resolution attempt
  ends in \<open>Disconnected\<close>; a successful resolution followed by a
  \<open>ReconnectionPermanentFailure\<close> ends in \<open>Disconnected\<close> too. In any state, a
  connection event leaves the state it asks for, and the outcome of the pending
  resolution leaves \<open>Connected\<close> or \<open>Disconnected\<close>: what arrives last decides.
\<close>

theorem last_arrival_determines_state:
  assumes "truthy authority" and "hasConnection env"
  shows
  "connectionState (constructor env authority ws menu legacy) = Some Initializing
   \<and> connectionState
       (run env [InstalledExtensionsRegistered, ConnectionStateChange ConnectionGain]
          (constructor env authority ws menu legacy)) = Some Connected
   \<and> connectionState
       (run env [InstalledExtensionsRegistered, ConnectionStateChange ConnectionGain,
                 AuthorityResolved False]
          (constructor env authority ws menu legacy)) = Some Disconnected
   \<and> connectionState
       (run env [InstalledExtensionsRegistered, AuthorityResolved True]
          (constructor env authority ws menu legacy)) = Some Connected
   \<and> connectionState
       (run env [InstalledExtensionsRegistered, AuthorityResolved True,
                 ConnectionStateChange ReconnectionPermanentFailure]
          (constructor env authority ws menu legacy)) = Some Disconnected
   \<and> (truthy (remoteAuthority s) \<longrightarrow>
        connectionState (step env (ConnectionStateChange e) s) = Some (eventTarget e))
   \<and> (asyncPhase s = AwaitingResolution \<longrightarrow>
        connectionState (step env (AuthorityResolved ok) s)
          = Some (if ok then Connected else Disconnected))"
proof -
  let ?c = "constructor env authority ws menu legacy"
  let ?s1 = "step env InstalledExtensionsRegistered ?c"
  have c: "connectionState ?c = Some Initializing" "remoteAuthority ?c = authority"
    "asyncPhase ?c = AwaitingExtensions"
    using assms by (simp_all add: constructor_fields)
  have s1: "asyncPhase ?s1 = AwaitingResolution" "truthy (remoteAuthority ?s1)"
    using step_extensions [of ?c env] c assms by simp_all
  let ?g = "step env (ConnectionStateChange ConnectionGain) ?s1"
  have g: "connectionState ?g = Some Connected" "asyncPhase ?g = AwaitingResolution"
    using step_connection [of ?s1 env ConnectionGain] s1 assms by simp_all
  have gf: "connectionState (step env (AuthorityResolved False) ?g) = Some Disconnected"
    using step_resolved [of ?g env False] g by simp
  let ?r = "step env (AuthorityResolved True) ?s1"
  have r: "connectionState ?r = Some Connected" "truthy (remoteAuthority ?r)"
    using step_resolved [of ?s1 env True] s1 by simp_all
  have rf: "connectionState (step env (ConnectionStateChange ReconnectionPermanentFailure) ?r)
      = Some Disconnected"
    using step_connection [of ?r env ReconnectionPermanentFailure] r assms by simp
  have general: "truthy (remoteAuthority s) \<longrightarrow>
        connectionState (step env (ConnectionStateChange e) s) = Some (eventTarget e)"
    using step_connection [of s env e] assms by blast
  have general2: "asyncPhase s = AwaitingResolution \<longrightarrow>
        connectionState (step env (AuthorityResolved ok) s)
          = Some (if ok then Connected else Disconnected)"
    using step_resolved [of s env ok] by blast
  show ?thesis
    unfolding run.simps using c(1) g(1) gf r(1) rf general general2 by blast
qed

theorem last_arrival_determines_state_witness:
  "truthy (Some ''myhost'') \<and> hasConnection sample_services
   \<and> connectionState
       (run sample_services [InstalledExtensionsRegistered, ConnectionStateChange ConnectionGain,
                 AuthorityResolved False]
          (constructor sample_services (Some ''myhost'') None [] [])) = Some Disconnected
   \<and> connectionState
       (run sample_services [InstalledExtensionsRegistered, AuthorityResolved True,
                 ConnectionStateChange ReconnectionPermanentFailure]
          (constructor sample_services (Some ''myhost'') None [] [])) = Some Disconnected"
proof -
  have a: "truthy (Some ''myhost'')" by simp
  have b: "hasConnection sample_services" by (simp add: sample_services_def)
  show ?thesis
    using a b last_arrival_determines_state [OF a b, of None "[]" "[]"] by blast
qed

text \<open>
  C3 as stated fails: after \<open>ConnectionGain\<close> and then the failure of the resolution
  attempt, the state is not \<open>Connected\<close>.
\<close>

theorem resolution_failure_after_gain_counterexample:
  "connectionState (constructor sample_services (Some ''myhost'') None [] []) = Some Initializing
   \<and> connectionState
       (run sample_services [InstalledExtensionsRegistered, ConnectionStateChange ConnectionGain]
          (constructor sample_services (Some ''myhost'') None [] [])) = Some Connected
   \<and> connectionState
       (run sample_services [InstalledExtensionsRegistered, ConnectionStateChange ConnectionGain,
                 AuthorityResolved False]
          (constructor sample_services (Some ''myhost'') None [] [])) \<noteq> Some Connected"
  by code_simp

section \<open>The override of the window indicator\<close>

lemma entry_validatedGroup: "remoteStatusEntry (snd (validatedGroup g s)) = remoteStatusEntry s"
  by (simp add: validatedGroup_def)

lemma entry_filterValidated: "remoteStatusEntry (snd (filterValidated gs s)) = remoteStatusEntry s"
proof (induction gs arbitrary: s)
  case Nil
  show ?case by simp
next
  case (Cons a gs)
  show ?case
    using Cons.IH [of "snd (validatedGroup (fst a) s)"] entry_validatedGroup [of "fst a" s]
    by (auto split: prod.splits)
qed

lemma entry_getRemoteMenuActions:
  "remoteStatusEntry (snd (getRemoteMenuActions b s)) = remoteStatusEntry s"
  using entry_filterValidated [of "remoteIndicatorMenu s" s]
  by (auto simp: getRemoteMenuActions_def split: option.splits prod.splits)

lemma entry_computeItems: "remoteStatusEntry (snd (computeItems env s)) = remoteStatusEntry s"
  using entry_getRemoteMenuActions [of True s]
  by (auto simp: computeItems_def Let_def split: prod.splits sum.splits)

lemma entry_showRemoteMenu:
  "remoteStatusEntry (snd (showRemoteMenu env s)) = remoteStatusEntry s"
  using entry_computeItems [of env s]
  by (auto simp: showRemoteMenu_def split: prod.splits sum.splits)

lemma entry_refreshQuickPick: "remoteStatusEntry (refreshQuickPick env s) = remoteStatusEntry s"
  using entry_computeItems [of env s]
  by (auto simp: refreshQuickPick_def split: option.splits prod.splits sum.splits)

lemma text_render:
  "map_option sb_text (remoteStatusEntry (renderRemoteStatusIndicator env t tip c p s)) = Some t"
  by (simp add: renderRemoteStatusIndicator_def split: prod.splits)

lemma update_override:
  "windowIndicator s = Some w \<Longrightarrow>
   updateRemoteStatusIndicator env s =
     s\<lparr> remoteStatusEntry := Some
          \<lparr> sb_name = localize env ''remoteHost'' ''Remote Host'' [],
            sb_ariaLabel = getCodiconAriaLabel env
              (if truthy (remoteAuthority s)
               then truncate (wi_label w) REMOTE_STATUS_LABEL_MAX_LENGTH else ''$(remote)''),
            sb_text =
              (if truthy (remoteAuthority s)
               then truncate (wi_label w) REMOTE_STATUS_LABEL_MAX_LENGTH else ''$(remote)''),
            sb_showProgress = None,
            sb_tooltip = Some (TipString (wi_tooltip w)),
            sb_command = Some (wi_command w) \<rparr> \<rparr>"
  by (simp add: updateRemoteStatusIndicator_def renderRemoteStatusIndicator_def defaultCommand_def)

lemma truncate_default_label:
  "truncate (wi_label defaultWindowIndicator) REMOTE_STATUS_LABEL_MAX_LENGTH
     = ''$(remote) k0s: boring_wozniak''"
  by (simp add: truncate_def defaultWindowIndicator_def REMOTE_STATUS_LABEL_MAX_LENGTH_def)

lemma override_inv_update:
  "windowIndicator s = Some defaultWindowIndicator \<Longrightarrow> override_inv (updateRemoteStatusIndicator env s)"
  by (simp add: update_override override_inv_def)

lemma override_inv_setState: "override_inv s \<Longrightarrow> override_inv (setState env n s)"
  by (auto simp: setState_def Let_def intro: override_inv_update simp: override_inv_def [of s])

lemma override_inv_showRemoteMenu:
  "override_inv s \<Longrightarrow> override_inv (snd (showRemoteMenu env s))"
  using same_core_showRemoteMenu [of s env]
  by (simp add: override_inv_def entry_showRemoteMenu same_core_def)

lemma override_inv_refreshQuickPick: "override_inv s \<Longrightarrow> override_inv (refreshQuickPick env s)"
  using same_core_refreshQuickPick [of s env]
  by (simp add: override_inv_def entry_refreshQuickPick same_core_def)

lemma override_inv_step: "override_inv s \<Longrightarrow> override_inv (step env e s)"
proof (cases e)
  case (MenuChanged src gs)
  assume k: "override_inv s"
  then have "windowIndicator (setMenu src gs s\<lparr>remoteMenuActionsGroups := None\<rparr>) = Some defaultWindowIndicator"
    by (simp add: override_inv_def setMenu_def split: menu_source.splits)
  then have "override_inv (updateRemoteActions env (setMenu src gs s))"
    unfolding updateRemoteActions_def by (rule override_inv_update)
  then show ?thesis using MenuChanged
    by (auto intro: override_inv_refreshQuickPick)
next
  case (ConnectionStateChange ev)
  assume "override_inv s"
  then show ?thesis using ConnectionStateChange by (cases ev) (auto intro: override_inv_setState)
next
  case (WorkbenchStateChanged loc)
  assume k: "override_inv s"
  then have "windowIndicator (s\<lparr>virtualWorkspaceLocation := loc\<rparr>) = Some defaultWindowIndicator"
    by (simp add: override_inv_def)
  then show ?thesis using WorkbenchStateChanged k
    by (auto intro: override_inv_update)
next
  case InstalledExtensionsRegistered
  assume k: "override_inv s"
  then have "\<And>p. windowIndicator (s\<lparr>asyncPhase := p\<rparr>) = Some defaultWindowIndicator"
    by (simp add: override_inv_def)
  then show ?thesis using InstalledExtensionsRegistered k
    by (auto intro: override_inv_update)
next
  case (AuthorityResolved ok)
  assume k: "override_inv s"
  then have "override_inv (s\<lparr>asyncPhase := Settled\<rparr>)" by (simp add: override_inv_def)
  then show ?thesis using AuthorityResolved k by (auto intro: override_inv_setState)
next
  case FormattersChanged
  assume "override_inv s"
  then show ?thesis using FormattersChanged
    by (auto intro: override_inv_update simp: override_inv_def [of s])
next
  case ShowRemoteMenu
  assume "override_inv s"
  then show ?thesis using ShowRemoteMenu
    by (auto intro: override_inv_showRemoteMenu)
qed (auto simp: override_inv_def)

lemma override_inv_run: "override_inv s \<Longrightarrow> override_inv (run env evs s)"
  by (induction evs arbitrary: s) (auto intro: override_inv_step)

lemma override_inv_constructor: "override_inv (constructor env a w m l)"
  unfolding constructor_def Let_def by (rule override_inv_update) simp

lemma windowIndicator_setState: "windowIndicator (setState env n s) = windowIndicator s"
  by (simp add: frame_setState)

lemma windowIndicator_step: "windowIndicator (step env e s) = windowIndicator s"
proof (cases e)
  case (MenuChanged src gs)
  have "windowIndicator (updateRemoteActions env (setMenu src gs s)) = windowIndicator s"
    using same_core_update [of "setMenu src gs s\<lparr>remoteMenuActionsGroups := None\<rparr>" env]
    by (simp add: updateRemoteActions_def same_core_def setMenu_def split: menu_source.splits)
  then show ?thesis using MenuChanged
      same_core_refreshQuickPick [of "updateRemoteActions env (setMenu src gs s)" env]
    by (simp add: same_core_def)
next
  case (ConnectionStateChange ev)
  then show ?thesis by (cases ev) (simp_all add: windowIndicator_setState)
next
  case (WorkbenchStateChanged loc)
  then show ?thesis using same_core_update [of "s\<lparr>virtualWorkspaceLocation := loc\<rparr>" env]
    by (simp add: same_core_def)
next
  case InstalledExtensionsRegistered
  then show ?thesis
    using same_core_update [of "s\<lparr>asyncPhase := AwaitingResolution\<rparr>" env]
      same_core_update [of "s\<lparr>asyncPhase := Settled\<rparr>" env]
    by (simp add: same_core_def)
next
  case (AuthorityResolved ok)
  then show ?thesis by (simp add: windowIndicator_setState)
next
  case FormattersChanged
  then show ?thesis using same_core_update [of s env] by (simp add: same_core_def)
next
  case ShowRemoteMenu
  then show ?thesis using same_core_showRemoteMenu [of s env] by (simp add: same_core_def)
qed simp_all

text \<open>
  C2. The \<open>windowIndicator\<close> field is initialized to a fixed value and no handler assigns
  it, so it holds that value after any sequence of events. In every state that holds it,
  \<open>updateRemoteStatusIndicator\<close> does nothing but set the status entry from the
  override: the label truncated to 40 characters with an authority, the bare
  \<open>$(remote)\<close> icon without one, with the tooltip and the command of the override. The
  branches on the connection state, the virtual workspace and the menu leave no trace
  (neither the cache nor the log changes), and the entry is never disposed: it is there
  after any sequence of events.
\<close>

theorem override_branch_always_taken:
  "windowIndicator (constructor env authority ws menu legacy) = Some defaultWindowIndicator
   \<and> windowIndicator (step env e s) = windowIndicator s
   \<and> windowIndicator (run env evs (constructor env authority ws menu legacy))
       = Some defaultWindowIndicator
   \<and> (windowIndicator s = Some defaultWindowIndicator \<longrightarrow>
        updateRemoteStatusIndicator env s =
          s\<lparr> remoteStatusEntry := Some
               \<lparr> sb_name = localize env ''remoteHost'' ''Remote Host'' [],
                 sb_ariaLabel = getCodiconAriaLabel env
                   (if truthy (remoteAuthority s)
                    then truncate ''$(remote) k0s: boring_wozniak'' 40 else ''$(remote)''),
                 sb_text =
                   (if truthy (remoteAuthority s)
                    then truncate ''$(remote) k0s: boring_wozniak'' 40 else ''$(remote)''),
                 sb_showProgress = None,
                 sb_tooltip = Some (TipString ''Running in boring_wozniak''),
                 sb_command = Some REMOTE_ACTIONS_COMMAND_ID \<rparr> \<rparr>)
   \<and> remoteStatusEntry (run env evs (constructor env authority ws menu legacy)) \<noteq> None"
proof -
  have a: "override_inv (run env evs (constructor env authority ws menu legacy))"
    by (rule override_inv_run [OF override_inv_constructor])
  have b: "windowIndicator s = Some defaultWindowIndicator \<longrightarrow>
        updateRemoteStatusIndicator env s =
          s\<lparr> remoteStatusEntry := Some
               \<lparr> sb_name = localize env ''remoteHost'' ''Remote Host'' [],
                 sb_ariaLabel = getCodiconAriaLabel env
                   (if truthy (remoteAuthority s)
                    then truncate ''$(remote) k0s: boring_wozniak'' 40 else ''$(remote)''),
                 sb_text =
                   (if truthy (remoteAuthority s)
                    then truncate ''$(remote) k0s: boring_wozniak'' 40 else ''$(remote)''),
                 sb_showProgress = None,
                 sb_tooltip = Some (TipString ''Running in boring_wozniak''),
                 sb_command = Some REMOTE_ACTIONS_COMMAND_ID \<rparr> \<rparr>"
    using update_override [of s defaultWindowIndicator env]
    by (simp add: defaultWindowIndicator_def REMOTE_STATUS_LABEL_MAX_LENGTH_def)
  show ?thesis
    using a b windowIndicator_step [of env e s]
    by (simp add: override_inv_def constructor_fields del: run.simps step.simps)
qed

theorem override_branch_always_taken_witness:
  "windowIndicator myhost_disconnected = Some defaultWindowIndicator
   \<and> map_option sb_text (remoteStatusEntry (updateRemoteStatusIndicator sample_services myhost_disconnected))
       = Some ''$(remote) k0s: boring_wozniak''"
proof -
  have a: "windowIndicator myhost_disconnected = Some defaultWindowIndicator"
    unfolding myhost_disconnected_def
    using override_branch_always_taken
      [of sample_services "Some ''myhost''" None "[]" "[]" InstalledExtensionsRegistered
          myhost_disconnected "[InstalledExtensionsRegistered, AuthorityResolved False]"]
    by blast
  have t: "truthy (remoteAuthority myhost_disconnected)" by code_simp
  have "updateRemoteStatusIndicator sample_services myhost_disconnected =
          myhost_disconnected\<lparr> remoteStatusEntry := Some
               \<lparr> sb_name = localize sample_services ''remoteHost'' ''Remote Host'' [],
                 sb_ariaLabel = getCodiconAriaLabel sample_services
                   (if truthy (remoteAuthority myhost_disconnected)
                    then truncate ''$(remote) k0s: boring_wozniak'' 40 else ''$(remote)''),
                 sb_text =
                   (if truthy (remoteAuthority myhost_disconnected)
                    then truncate ''$(remote) k0s: boring_wozniak'' 40 else ''$(remote)''),
                 sb_showProgress = None,
                 sb_tooltip = Some (TipString ''Running in boring_wozniak''),
                 sb_command = Some REMOTE_ACTIONS_COMMAND_ID \<rparr> \<rparr>"
    using a override_branch_always_taken
      [of sample_services "Some ''myhost''" None "[]" "[]" InstalledExtensionsRegistered
          myhost_disconnected "[]"]
    by blast
  then show ?thesis using a t by (simp add: truncate_def)
qed

section \<open>The indicator text of a disconnected remote window\<close>

text \<open>
  C1, as the code has it. With the authority \<open>myhost\<close> and the state \<open>Disconnected\<close>, the
  indicator shows the label of the override, \<open>$(remote) k0s: boring_wozniak\<close> (it is
  within the 40 characters), in every state that holds the override; only in a state
  without an override does it show \<open>$(alert)\<close>, a space, and the localized
  "Disconnected from {0}" applied to the host label truncated to 40 characters.
\<close>

theorem indicator_text_when_disconnected:
  assumes "remoteAuthority s = Some ''myhost''" and "connectionState s = Some Disconnected"
  shows
  "(windowIndicator s = Some defaultWindowIndicator \<longrightarrow>
      map_option sb_text (remoteStatusEntry (updateRemoteStatusIndicator env s))
        = Some ''$(remote) k0s: boring_wozniak'')
   \<and> (windowIndicator s = None \<longrightarrow>
      map_option sb_text (remoteStatusEntry (updateRemoteStatusIndicator env s))
        = Some (''$(alert) '' @ localize env ''disconnectedFrom'' ''Disconnected from {0}''
                  [truncate
                     (if getHostLabel env (Schemas_vscodeRemote env) ''myhost'' \<noteq> []
                      then getHostLabel env (Schemas_vscodeRemote env) ''myhost'' else ''myhost'')
                     40]))"
proof (intro conjI impI)
  assume "windowIndicator s = Some defaultWindowIndicator"
  then show "map_option sb_text (remoteStatusEntry (updateRemoteStatusIndicator env s))
        = Some ''$(remote) k0s: boring_wozniak''"
    using assms(1) by (simp add: update_override truncate_default_label)
next
  assume "windowIndicator s = None"
  then show "map_option sb_text (remoteStatusEntry (updateRemoteStatusIndicator env s))
        = Some (''$(alert) '' @ localize env ''disconnectedFrom'' ''Disconnected from {0}''
                  [truncate
                     (if getHostLabel env (Schemas_vscodeRemote env) ''myhost'' \<noteq> []
                      then getHostLabel env (Schemas_vscodeRemote env) ''myhost'' else ''myhost'')
                     40])"
    using assms
    by (simp add: updateRemoteStatusIndicator_def showRemoteHost_def isWeb_def text_render
        REMOTE_STATUS_LABEL_MAX_LENGTH_def Let_def)
qed

theorem indicator_text_when_disconnected_witness:
  "remoteAuthority myhost_disconnected = Some ''myhost''
   \<and> connectionState myhost_disconnected = Some Disconnected
   \<and> windowIndicator myhost_disconnected = Some defaultWindowIndicator
   \<and> map_option sb_text (remoteStatusEntry (updateRemoteStatusIndicator sample_services myhost_disconnected))
        = Some ''$(remote) k0s: boring_wozniak''
   \<and> map_option sb_text (remoteStatusEntry (updateRemoteStatusIndicator sample_services
          (myhost_disconnected\<lparr>windowIndicator := None\<rparr>)))
        = Some ''$(alert) Disconnected from myhost''"
proof -
  have a: "remoteAuthority myhost_disconnected = Some ''myhost''" by code_simp
  have b: "connectionState myhost_disconnected = Some Disconnected" by code_simp
  have c: "windowIndicator myhost_disconnected = Some defaultWindowIndicator" by code_simp
  have d: "''$(alert) '' @ localize sample_services ''disconnectedFrom'' ''Disconnected from {0}''
                  [truncate
                     (if getHostLabel sample_services (Schemas_vscodeRemote sample_services) ''myhost'' \<noteq> []
                      then getHostLabel sample_services (Schemas_vscodeRemote sample_services) ''myhost'' else ''myhost'')
                     40] = ''$(alert) Disconnected from myhost''" by code_simp
  have e: "map_option sb_text (remoteStatusEntry (updateRemoteStatusIndicator sample_services
          (myhost_disconnected\<lparr>windowIndicator := None\<rparr>)))
        = Some ''$(alert) Disconnected from myhost''"
    using indicator_text_when_disconnected
      [of "myhost_disconnected\<lparr>windowIndicator := None\<rparr>" sample_services] a b d
    by simp
  show ?thesis
    using a b c e indicator_text_when_disconnected [of myhost_disconnected sample_services]
    by simp
qed

text \<open>
  C1 as stated fails: in the remote window on \<open>myhost\<close> whose resolution has failed, the
  state is \<open>Disconnected\<close> and the indicator text is not the localized
  "Disconnected from {0}" applied to the host label.
\<close>

theorem indicator_text_when_disconnected_counterexample:
  "remoteAuthority myhost_disconnected = Some ''myhost''
   \<and> \<not> isWeb
   \<and> connectionState myhost_disconnected = Some Disconnected
   \<and> map_option sb_text (remoteStatusEntry (updateRemoteStatusIndicator sample_services myhost_disconnected))
       \<noteq> Some (localize sample_services ''disconnectedFrom'' ''Disconnected from {0}''
                  [truncate (getHostLabel sample_services (Schemas_vscodeRemote sample_services) ''myhost'')
                     REMOTE_STATUS_LABEL_MAX_LENGTH])"
  by code_simp

section \<open>One warning for each invalid group\<close>

lemma invalidGroupWarning_inj: "invalidGroupWarning g = invalidGroupWarning h \<Longrightarrow> g = h"
  by (simp add: invalidGroupWarning_def)

lemma log_inv_cong:
  "warnings s' = warnings s \<Longrightarrow> loggedInvalidGroupNames s' = loggedInvalidGroupNames s \<Longrightarrow>
   log_inv s \<Longrightarrow> log_inv s'"
  by (simp add: log_inv_def)

lemma log_inv_validatedGroup: "log_inv s \<Longrightarrow> log_inv (snd (validatedGroup g s))"
proof -
  assume inv: "log_inv s"
  show ?thesis
  proof (cases "\<not> rx_match groupNameRegExp g \<and> loggedInvalidGroupNames s g \<noteq> Some True")
    case False
    then have "snd (validatedGroup g s) = s" by (auto simp: validatedGroup_def)
    with inv show ?thesis by simp
  next
    case True
    then have eq: "snd (validatedGroup g s) =
        s\<lparr> loggedInvalidGroupNames := (loggedInvalidGroupNames s)(g \<mapsto> True),
           warnings := warnings s @ [invalidGroupWarning g] \<rparr>"
      by (simp add: validatedGroup_def)
    have fresh: "invalidGroupWarning g \<notin> set (warnings s)"
    proof
      assume "invalidGroupWarning g \<in> set (warnings s)"
      then obtain h where "invalidGroupWarning g = invalidGroupWarning h"
        "loggedInvalidGroupNames s h = Some True"
        using inv unfolding log_inv_def by blast
      then show False using True invalidGroupWarning_inj by blast
    qed
    show ?thesis
      unfolding eq log_inv_def using inv fresh True
      by (auto simp: log_inv_def)
  qed
qed

lemma log_inv_filterValidated: "log_inv s \<Longrightarrow> log_inv (snd (filterValidated gs s))"
proof (induction gs arbitrary: s)
  case Nil
  then show ?case by simp
next
  case (Cons a gs)
  from Cons.prems have "log_inv (snd (validatedGroup (fst a) s))" by (rule log_inv_validatedGroup)
  then have "log_inv (snd (filterValidated gs (snd (validatedGroup (fst a) s))))" by (rule Cons.IH)
  then show ?case by (auto split: prod.splits)
qed

lemma log_inv_getRemoteMenuActions: "log_inv s \<Longrightarrow> log_inv (snd (getRemoteMenuActions b s))"
  using log_inv_filterValidated [of s "remoteIndicatorMenu s"]
  by (auto simp: getRemoteMenuActions_def split: option.splits prod.splits
      elim: log_inv_cong [rotated 2])


lemma log_inv_entry: "log_inv s \<Longrightarrow> log_inv (s\<lparr>remoteStatusEntry := e\<rparr>)"
  by (simp add: log_inv_def)

lemma log_inv_defaultCommand: "log_inv s \<Longrightarrow> log_inv (snd (defaultCommand c s))"
  using log_inv_getRemoteMenuActions [of s False]
  by (auto simp: defaultCommand_def split: option.splits prod.splits)

lemma log_inv_render: "log_inv s \<Longrightarrow> log_inv (renderRemoteStatusIndicator env t tip c p s)"
  using log_inv_defaultCommand [of s c]
  by (auto simp: renderRemoteStatusIndicator_def split: prod.splits intro: log_inv_entry)

lemma log_inv_offer: "log_inv s \<Longrightarrow> log_inv (offerMenuOrHide env s)"
  using log_inv_getRemoteMenuActions [of s False]
  by (auto simp: offerMenuOrHide_def split: prod.splits intro: log_inv_entry log_inv_render)

lemma log_inv_showVirtualWorkspace: "log_inv s \<Longrightarrow> log_inv (showVirtualWorkspace env s)"
  by (auto simp: showVirtualWorkspace_def Let_def split: option.splits
      intro: log_inv_render log_inv_offer)

lemma log_inv_showRemoteHost: "log_inv s \<Longrightarrow> log_inv (showRemoteHost env a s)"
  by (auto simp: showRemoteHost_def Let_def split: option.splits connection_state.splits
      intro: log_inv_render)

lemma log_inv_update: "log_inv s \<Longrightarrow> log_inv (updateRemoteStatusIndicator env s)"
  by (auto simp: updateRemoteStatusIndicator_def split: option.splits
      intro: log_inv_render log_inv_showRemoteHost log_inv_showVirtualWorkspace)

lemma log_inv_setState: "log_inv s \<Longrightarrow> log_inv (setState env n s)"
proof -
  assume a: "log_inv s"
  then have "\<And>k. log_inv (s\<lparr>connectionState := Some n, connectionStateContextKey := k\<rparr>)"
    by (simp add: log_inv_def)
  then show ?thesis using a by (auto simp: setState_def Let_def intro: log_inv_update)
qed

lemma log_inv_computeItems: "log_inv s \<Longrightarrow> log_inv (snd (computeItems env s))"
  using log_inv_getRemoteMenuActions [of s True]
  by (auto simp: computeItems_def Let_def split: prod.splits sum.splits
      elim: log_inv_cong [rotated 2])

lemma log_inv_showRemoteMenu: "log_inv s \<Longrightarrow> log_inv (snd (showRemoteMenu env s))"
  using log_inv_computeItems [of s env]
  by (auto simp: showRemoteMenu_def split: prod.splits sum.splits elim: log_inv_cong [rotated 2])

lemma log_inv_refreshQuickPick: "log_inv s \<Longrightarrow> log_inv (refreshQuickPick env s)"
  using log_inv_computeItems [of s env]
  by (auto simp: refreshQuickPick_def split: option.splits prod.splits sum.splits
      elim: log_inv_cong [rotated 2])

lemma log_inv_step: "log_inv s \<Longrightarrow> log_inv (step env e s)"
proof (cases e)
  case (MenuChanged src gs)
  assume k: "log_inv s"
  then have "log_inv (setMenu src gs s\<lparr>remoteMenuActionsGroups := None\<rparr>)"
    by (simp add: log_inv_def setMenu_def split: menu_source.splits)
  then have "log_inv (updateRemoteActions env (setMenu src gs s))"
    unfolding updateRemoteActions_def by (rule log_inv_update)
  then show ?thesis using MenuChanged
    by (auto intro: log_inv_refreshQuickPick)
next
  case (ConnectionStateChange ev)
  assume "log_inv s"
  then show ?thesis using ConnectionStateChange by (cases ev) (auto intro: log_inv_setState)
next
  case (WorkbenchStateChanged loc)
  assume k: "log_inv s"
  then have "log_inv (s\<lparr>virtualWorkspaceLocation := loc\<rparr>)" by (simp add: log_inv_def)
  then show ?thesis using WorkbenchStateChanged k by (auto intro: log_inv_update)
next
  case InstalledExtensionsRegistered
  assume k: "log_inv s"
  then have "\<And>p. log_inv (s\<lparr>asyncPhase := p\<rparr>)" by (simp add: log_inv_def)
  then show ?thesis using InstalledExtensionsRegistered k by (auto intro: log_inv_update)
next
  case (AuthorityResolved ok)
  assume k: "log_inv s"
  then have "log_inv (s\<lparr>asyncPhase := Settled\<rparr>)" by (simp add: log_inv_def)
  then show ?thesis using AuthorityResolved k by (auto intro: log_inv_setState)
next
  case FormattersChanged
  assume "log_inv s"
  then show ?thesis using FormattersChanged by (auto intro: log_inv_update)
next
  case ShowRemoteMenu
  assume "log_inv s"
  then show ?thesis using ShowRemoteMenu by (auto intro: log_inv_showRemoteMenu)
qed (auto simp: log_inv_def)

lemma log_inv_run: "log_inv s \<Longrightarrow> log_inv (run env evs s)"
  by (induction evs arbitrary: s) (auto intro: log_inv_step)

lemma log_inv_constructor: "log_inv (constructor env a w m l)"
  unfolding constructor_def Let_def
  by (rule log_inv_update) (simp add: log_inv_def)

lemma distinct_count_list_le: "distinct xs \<Longrightarrow> count_list xs x \<le> 1"
  by (induction xs) (auto simp: count_list_0_iff)

text \<open>
  C6. After any sequence of events the log holds at most one warning for each key, and
  every warning in it is for a key the validator rejects. A validation that accepts
  leaves the state as it is; a rejection logs the warning for the key if the key is not
  marked as logged, marking it, and leaves the state as it is if it is.
\<close>

theorem invalid_group_logged_once:
  "(\<forall>g. count_list (warnings (run env evs (constructor env authority ws menu legacy)))
           (invalidGroupWarning g) \<le> 1)
   \<and> (\<forall>m\<in>set (warnings (run env evs (constructor env authority ws menu legacy))).
         \<exists>g. m = invalidGroupWarning g \<and> \<not> fst (validatedGroup g s))
   \<and> (fst (validatedGroup g s) \<longrightarrow> snd (validatedGroup g s) = s)
   \<and> (\<not> fst (validatedGroup g s) \<and> loggedInvalidGroupNames s g \<noteq> Some True \<longrightarrow>
        warnings (snd (validatedGroup g s)) = warnings s @ [invalidGroupWarning g]
        \<and> loggedInvalidGroupNames (snd (validatedGroup g s)) g = Some True)
   \<and> (\<not> fst (validatedGroup g s) \<and> loggedInvalidGroupNames s g = Some True \<longrightarrow>
        snd (validatedGroup g s) = s)"
proof -
  let ?s = "run env evs (constructor env authority ws menu legacy)"
  have inv: "log_inv ?s" by (rule log_inv_run [OF log_inv_constructor])
  then have "distinct (warnings ?s)" unfolding log_inv_def by blast
  then have 1: "\<forall>g. count_list (warnings ?s) (invalidGroupWarning g) \<le> 1"
    by (intro allI distinct_count_list_le)
  have 2: "\<forall>m\<in>set (warnings ?s). \<exists>g. m = invalidGroupWarning g \<and> \<not> fst (validatedGroup g s)"
  proof
    fix m assume "m \<in> set (warnings ?s)"
    then obtain h where "m = invalidGroupWarning h" "\<not> rx_match groupNameRegExp h"
      using inv unfolding log_inv_def by blast
    then show "\<exists>g. m = invalidGroupWarning g \<and> \<not> fst (validatedGroup g s)"
      unfolding fst_validatedGroup by blast
  qed
  have 3: "fst (validatedGroup g s) \<longrightarrow> snd (validatedGroup g s) = s"
    by (simp add: validatedGroup_def)
  have 4: "\<not> fst (validatedGroup g s) \<and> loggedInvalidGroupNames s g \<noteq> Some True \<longrightarrow>
        warnings (snd (validatedGroup g s)) = warnings s @ [invalidGroupWarning g]
        \<and> loggedInvalidGroupNames (snd (validatedGroup g s)) g = Some True"
    by (simp add: validatedGroup_def)
  have 5: "\<not> fst (validatedGroup g s) \<and> loggedInvalidGroupNames s g = Some True \<longrightarrow>
        snd (validatedGroup g s) = s"
    by (simp add: validatedGroup_def)
  show ?thesis by (intro conjI 1 2 3 4 5)
qed

theorem invalid_group_logged_once_witness:
  "warnings foo_menu_twice = [invalidGroupWarning ''foo'']
   \<and> count_list (warnings foo_menu_twice) (invalidGroupWarning ''foo'') \<le> 1
   \<and> \<not> fst (validatedGroup ''foo'' sample_state)
   \<and> fst (validatedGroup ''remote_00_ssh_x'' sample_state)
   \<and> snd (validatedGroup ''remote_00_ssh_x'' sample_state) = sample_state
   \<and> warnings (snd (validatedGroup ''foo'' sample_state)) = [invalidGroupWarning ''foo'']"
proof -
  have a: "warnings foo_menu_twice = [invalidGroupWarning ''foo'']" by code_simp
  have b: "\<not> fst (validatedGroup ''foo'' sample_state)" by code_simp
  have c: "fst (validatedGroup ''remote_00_ssh_x'' sample_state)" by code_simp
  have d: "loggedInvalidGroupNames sample_state ''foo'' \<noteq> Some True" by code_simp
  have e: "warnings sample_state = []" by code_simp
  show ?thesis
    using a b c d e
      invalid_group_logged_once [of sample_services "[ShowRemoteMenu, ShowRemoteMenu]" None None
        "[(''foo'', [])]" "[]" sample_state "''foo''"]
      invalid_group_logged_once [of sample_services "[ShowRemoteMenu, ShowRemoteMenu]" None None
        "[(''foo'', [])]" "[]" sample_state "''remote_00_ssh_x''"]
    unfolding foo_menu_twice_def [symmetric]
    by simp
qed

section \<open>The cached menu\<close>

lemma fst_filterValidated:
  "fst (filterValidated gs s) = filter (\<lambda>a. rx_match groupNameRegExp (fst a)) gs"
proof (induction gs arbitrary: s)
  case Nil
  show ?case by simp
next
  case (Cons a gs)
  show ?case
    using Cons.IH [of "snd (validatedGroup (fst a) s)"] fst_validatedGroup [of "fst a" s]
    by (auto split: prod.splits)
qed

lemma menus_validatedGroup:
  "remoteIndicatorMenu (snd (validatedGroup g s)) = remoteIndicatorMenu s
   \<and> legacyIndicatorMenu (snd (validatedGroup g s)) = legacyIndicatorMenu s"
  by (simp add: validatedGroup_def)

lemma menus_filterValidated:
  "remoteIndicatorMenu (snd (filterValidated gs s)) = remoteIndicatorMenu s
   \<and> legacyIndicatorMenu (snd (filterValidated gs s)) = legacyIndicatorMenu s"
proof (induction gs arbitrary: s)
  case Nil
  show ?case by simp
next
  case (Cons a gs)
  show ?case
    using Cons.IH [of "snd (validatedGroup (fst a) s)"] menus_validatedGroup [of "fst a" s]
    by (auto split: prod.splits)
qed

lemma getRemoteMenuActions_rebuild:
  "remoteMenuActionsGroups s = None \<or> doNotUseCache \<Longrightarrow>
   getRemoteMenuActions doNotUseCache s =
     (filter (\<lambda>a. rx_match groupNameRegExp (fst a)) (remoteIndicatorMenu s) @ legacyIndicatorMenu s,
      (snd (filterValidated (remoteIndicatorMenu s) s))
        \<lparr> remoteMenuActionsGroups :=
            Some (filter (\<lambda>a. rx_match groupNameRegExp (fst a)) (remoteIndicatorMenu s)
                  @ legacyIndicatorMenu s) \<rparr>)"
  using fst_filterValidated [of "remoteIndicatorMenu s" s]
  by (auto simp: getRemoteMenuActions_def split: option.splits prod.splits)

lemma getRemoteMenuActions_cached:
  "remoteMenuActionsGroups s = Some cached \<Longrightarrow> getRemoteMenuActions False s = (cached, s)"
  by (simp add: getRemoteMenuActions_def)

lemma cache_after_getRemoteMenuActions:
  "remoteMenuActionsGroups (snd (getRemoteMenuActions b s)) = Some (fst (getRemoteMenuActions b s))"
proof (cases "remoteMenuActionsGroups s = None \<or> b")
  case True
  then show ?thesis by (simp add: getRemoteMenuActions_rebuild)
next
  case False
  then obtain cached where "remoteMenuActionsGroups s = Some cached" "\<not> b" by auto
  then show ?thesis by (simp add: getRemoteMenuActions_cached)
qed

text \<open>
  C7. With the cache set and no forced refresh, \<open>getRemoteMenuActions\<close> returns the
  cached groups and changes nothing. With the cache unset or a forced refresh it returns,
  and stores as the cache, the groups of the current menu whose key passes the
  validation, in their order, followed by all groups of the legacy menu, in their order.
  A second call without forced refresh returns what the first returned. The menus
  themselves are left as they are.
\<close>

theorem getRemoteMenuActions_cache_and_rebuild:
  "(remoteMenuActionsGroups s = Some cached \<longrightarrow> getRemoteMenuActions False s = (cached, s))
   \<and> (remoteMenuActionsGroups s = None \<or> doNotUseCache \<longrightarrow>
        fst (getRemoteMenuActions doNotUseCache s)
          = filter (\<lambda>a. fst (validatedGroup (fst a) s)) (remoteIndicatorMenu s)
            @ legacyIndicatorMenu s
        \<and> remoteMenuActionsGroups (snd (getRemoteMenuActions doNotUseCache s))
          = Some (filter (\<lambda>a. fst (validatedGroup (fst a) s)) (remoteIndicatorMenu s)
                  @ legacyIndicatorMenu s))
   \<and> getRemoteMenuActions False (snd (getRemoteMenuActions False s))
        = (fst (getRemoteMenuActions False s), snd (getRemoteMenuActions False s))
   \<and> remoteIndicatorMenu (snd (getRemoteMenuActions doNotUseCache s)) = remoteIndicatorMenu s
   \<and> legacyIndicatorMenu (snd (getRemoteMenuActions doNotUseCache s)) = legacyIndicatorMenu s"
proof -
  have 1: "remoteMenuActionsGroups s = Some cached \<longrightarrow> getRemoteMenuActions False s = (cached, s)"
    by (simp add: getRemoteMenuActions_cached)
  have 2: "remoteMenuActionsGroups s = None \<or> doNotUseCache \<longrightarrow>
        fst (getRemoteMenuActions doNotUseCache s)
          = filter (\<lambda>a. fst (validatedGroup (fst a) s)) (remoteIndicatorMenu s)
            @ legacyIndicatorMenu s
        \<and> remoteMenuActionsGroups (snd (getRemoteMenuActions doNotUseCache s))
          = Some (filter (\<lambda>a. fst (validatedGroup (fst a) s)) (remoteIndicatorMenu s)
                  @ legacyIndicatorMenu s)"
    by (simp add: getRemoteMenuActions_rebuild fst_validatedGroup)
  have 3: "getRemoteMenuActions False (snd (getRemoteMenuActions False s))
        = (fst (getRemoteMenuActions False s), snd (getRemoteMenuActions False s))"
    by (rule getRemoteMenuActions_cached [OF cache_after_getRemoteMenuActions])
  have 4: "remoteIndicatorMenu (snd (getRemoteMenuActions doNotUseCache s)) = remoteIndicatorMenu s"
    using menus_filterValidated [of "remoteIndicatorMenu s" s]
    by (auto simp: getRemoteMenuActions_def split: option.splits prod.splits)
  have 5: "legacyIndicatorMenu (snd (getRemoteMenuActions doNotUseCache s)) = legacyIndicatorMenu s"
    using menus_filterValidated [of "remoteIndicatorMenu s" s]
    by (auto simp: getRemoteMenuActions_def split: option.splits prod.splits)
  show ?thesis by (intro conjI 1 2 3 4 5)
qed

theorem getRemoteMenuActions_cache_and_rebuild_witness:
  "remoteMenuActionsGroups menu_sample = None
   \<and> fst (getRemoteMenuActions False menu_sample)
        = [(''remote_00_ssh_x'', []), (''virtualfs_01_git_y'', []), (''legacy'', [])]
   \<and> remoteMenuActionsGroups (snd (getRemoteMenuActions False menu_sample))
        = Some [(''remote_00_ssh_x'', []), (''virtualfs_01_git_y'', []), (''legacy'', [])]
   \<and> fst (getRemoteMenuActions False (snd (getRemoteMenuActions False menu_sample)))
        = [(''remote_00_ssh_x'', []), (''virtualfs_01_git_y'', []), (''legacy'', [])]"
proof -
  have a: "remoteMenuActionsGroups menu_sample = None" by code_simp
  have b: "filter (\<lambda>a. fst (validatedGroup (fst a) menu_sample)) (remoteIndicatorMenu menu_sample)
            @ legacyIndicatorMenu menu_sample
        = [(''remote_00_ssh_x'', []), (''virtualfs_01_git_y'', []), (''legacy'', [])]"
    by code_simp
  show ?thesis
    using a b getRemoteMenuActions_cache_and_rebuild [of menu_sample _ False]
    by simp
qed

section \<open>What the presenter computes\<close>

lemma matchCurrentRemote_same_core:
  "same_core s s' \<Longrightarrow> matchCurrentRemote env s' = matchCurrentRemote env s"
  by (simp add: matchCurrentRemote_def matchVirtualWorkspace_def same_core_def
      split: option.splits)

lemma matchCurrentRemote_none:
  "matchCurrentRemote env s = Inr None
     \<longleftrightarrow> \<not> truthy (remoteAuthority s) \<and> virtualWorkspaceLocation s = None"
  by (auto simp: matchCurrentRemote_def matchVirtualWorkspace_def
      split: option.splits sum.splits)

lemma matchCurrentRemote_authority:
  "remoteAuthority s = Some a \<Longrightarrow> a \<noteq> [] \<Longrightarrow> rx_literal (getRemoteName env a) \<Longrightarrow>
   matchCurrentRemote env s
     = Inr (Some (rx_test_prefix (currentRemotePattern ''remote'' (getRemoteName env a))))"
  by (simp add: matchCurrentRemote_def newCurrentRemoteRegExp_def)


lemma fixedEntries_same_core: "same_core s s' \<Longrightarrow> fixedEntries env s' = fixedEntries env s"
  by (simp add: fixedEntries_def closeEntries_def same_core_def)

lemma fixedEntries_not_empty: "fixedEntries env s \<noteq> []"
  by (simp add: fixedEntries_def)

lemma appendFixedEntries_empty: "appendFixedEntries contributed [] = contributed"
  by (simp add: appendFixedEntries_def Let_def)

lemma appendFixedEntries_some:
  "fixed \<noteq> [] \<Longrightarrow> appendFixedEntries contributed fixed = contributed @ Separator None # fixed"
  by (simp add: appendFixedEntries_def Let_def)

lemma computeItems_throws:
  "matchCurrentRemote env s = Inl e \<Longrightarrow>
   computeItems env s = (Inl e, snd (getRemoteMenuActions True s))"
proof -
  assume m: "matchCurrentRemote env s = Inl e"
  obtain gs s1 where g: "getRemoteMenuActions True s = (gs, s1)"
    by (cases "getRemoteMenuActions True s")
  then have "same_core s s1" using same_core_getRemoteMenuActions [of s True] by simp
  then have "matchCurrentRemote env s1 = Inl e"
    using m by (simp add: matchCurrentRemote_same_core)
  then show ?thesis using g by (simp add: computeItems_def)
qed

lemma computeItems_returns:
  "matchCurrentRemote env s = Inr matcher \<Longrightarrow>
   computeItems env s =
     (Inr (fst (emitGroups (orderGroups env matcher (fst (getRemoteMenuActions True s))) ([], None))
           @ Separator None # fixedEntries env s),
      (snd (getRemoteMenuActions True s))
        \<lparr> remoteMenuActionsGroups :=
            Some (orderGroups env matcher (fst (getRemoteMenuActions True s))) \<rparr>)"
proof -
  assume m: "matchCurrentRemote env s = Inr matcher"
  obtain gs s1 where g: "getRemoteMenuActions True s = (gs, s1)"
    by (cases "getRemoteMenuActions True s")
  then have c: "same_core s s1" using same_core_getRemoteMenuActions [of s True] by simp
  then have m1: "matchCurrentRemote env s1 = Inr matcher"
    using m by (simp add: matchCurrentRemote_same_core)
  have "same_core s (s1\<lparr>remoteMenuActionsGroups := Some (orderGroups env matcher gs)\<rparr>)"
    using c by (simp add: same_core_def)
  then have f: "fixedEntries env (s1\<lparr>remoteMenuActionsGroups := Some (orderGroups env matcher gs)\<rparr>)
      = fixedEntries env s"
    by (rule fixedEntries_same_core)
  show ?thesis
    using g m1 f
    by (simp add: computeItems_def Let_def appendFixedEntries_some [OF fixedEntries_not_empty])
qed

lemma computeItems_error_iff:
  "fst (computeItems env s) = Inl e \<longleftrightarrow> matchCurrentRemote env s = Inl e"
  by (cases "matchCurrentRemote env s") (simp_all add: computeItems_throws computeItems_returns)

lemma emitActions_started:
  "emitActions as (items, lastCategoryName, True) = (items @ actionItems as, lastCategoryName, True)"
proof (induction as arbitrary: items)
  case Nil
  show ?case by simp
next
  case (Cons a as)
  show ?case by (cases a) (simp_all add: Cons.IH)
qed

lemma emitActions_fresh:
  "emitActions as (items, lastCategoryName, False) =
     (case firstCategory as of
        None \<Rightarrow> (items, lastCategoryName, False)
      | Some c \<Rightarrow>
          (items @ (if c \<noteq> lastCategoryName then [Separator c] else []) @ actionItems as, c, True))"
proof (induction as)
  case Nil
  show ?case by simp
next
  case (Cons a as)
  show ?case
  proof (cases a)
    case SubmenuItemAction
    with Cons.IH show ?thesis by (simp split: option.splits)
  next
    case (MenuItemAction i t c)
    then show ?thesis by (simp add: emitActions_started)
  qed
qed

lemma emitGroups_step:
  "emitGroups (g # gs) (items, lastCategoryName) =
     (case firstCategory (snd g) of
        None \<Rightarrow> emitGroups gs (items, lastCategoryName)
      | Some c \<Rightarrow>
          emitGroups gs
            (items @ (if c \<noteq> lastCategoryName then [Separator c] else []) @ actionItems (snd g), c))"
  by (simp add: emitActions_fresh split: option.splits)

lemma emitGroups_contributedItems:
  "fst (emitGroups gs (items, lastCategoryName)) = items @ contributedItems lastCategoryName gs"
proof (induction gs arbitrary: items lastCategoryName)
  case Nil
  show ?case by simp
next
  case (Cons g gs)
  show ?case
    by (cases "firstCategory (snd g)")
       (simp_all add: emitGroups_step Cons.IH del: emitGroups.simps(2))
qed

section \<open>The order of the groups in the menu\<close>


















section \<open>Category separators\<close>

lemma separatorLabels_append:
  "separatorLabels (xs @ ys) = separatorLabels xs @ separatorLabels ys"
  by (induction xs rule: separatorLabels.induct) simp_all

lemma separatorLabels_actionItems: "separatorLabels (actionItems as) = []"
  by (induction as rule: actionItems.induct) simp_all

lemma separatorLabels_fixedEntries: "separatorLabels (fixedEntries env s) = [None]"
  by (simp add: fixedEntries_def closeEntries_def separatorLabels_append)

lemma contributedItems_append_after:
  "preceding = lastSeparatorLabel items \<Longrightarrow>
   items @ contributedItems preceding (pre @ post)
     = (items @ contributedItems preceding pre)
       @ contributedItems (lastSeparatorLabel (items @ contributedItems preceding pre)) post"
proof (induction pre arbitrary: items preceding)
  case Nil
  then show ?case by simp
next
  case (Cons g pre)
  show ?case
  proof (cases "firstCategory (snd g)")
    case None
    then show ?thesis using Cons.IH [OF Cons.prems] by simp
  next
    case (Some c)
    let ?x = "(if c \<noteq> preceding then [Separator c] else []) @ actionItems (snd g)"
    have "c = lastSeparatorLabel (items @ ?x)"
      using Cons.prems
      by (simp add: lastSeparatorLabel_def separatorLabels_append separatorLabels_actionItems)
    from Cons.IH [OF this] show ?thesis using Some by simp
  qed
qed

lemma contributedItems_append:
  "contributedItems None (pre @ post)
     = contributedItems None pre
       @ contributedItems (lastSeparatorLabel (contributedItems None pre)) post"
  using contributedItems_append_after [of None "[]" pre post]
  by (simp add: lastSeparatorLabel_def)

lemma firstCategory_all:
  "as \<noteq> [] \<Longrightarrow> \<forall>a\<in>set as. \<exists>i t c. a = MenuItemAction i t c \<and> getCategoryLabel c = Some d \<Longrightarrow>
   firstCategory as = Some (Some d)"
  by (cases as) auto

lemma docker_groups:
  assumes "snd g1 \<noteq> [] \<or> snd g2 \<noteq> []"
    and "\<forall>a\<in>set (snd g1 @ snd g2).
           \<exists>i t c. a = MenuItemAction i t c \<and> getCategoryLabel c = Some ''Docker''"
  shows "contributedItems preceding [g1, g2]
           = (if Some ''Docker'' \<noteq> preceding then [Separator (Some ''Docker'')] else [])
             @ actionItems (snd g1) @ actionItems (snd g2)"
proof -
  have f1: "snd g1 \<noteq> [] \<Longrightarrow> firstCategory (snd g1) = Some (Some ''Docker'')"
    using assms(2) by (intro firstCategory_all) auto
  have f2: "snd g2 \<noteq> [] \<Longrightarrow> firstCategory (snd g2) = Some (Some ''Docker'')"
    using assms(2) by (intro firstCategory_all) auto
  show ?thesis
  proof (cases "snd g1 = []")
    case True
    then have "snd g2 \<noteq> []" using assms(1) by simp
    then show ?thesis using True f2 by simp
  next
    case False
    then show ?thesis using f1 f2 by (cases "snd g2 = []") simp_all
  qed
qed

text \<open>
  C9. When \<open>computeItems\<close> returns a list, its contributed part is, group by group in the
  order of the presenter, a separator labeled with the category of the first plain menu
  action of the group before the items of the group exactly when this category differs
  from the preceding one, and nothing for a group without plain menu actions; the
  preceding category is the label of the last separator pushed so far (absent when
  there is none). So two groups in a row whose actions all are plain menu actions of the
  category \<open>Docker\<close>, at least one of them with an action, give at most one \<open>Docker\<close>
  separator, before their items, and none when the preceding separator is a \<open>Docker\<close>
  one; a menu of these two groups has exactly one \<open>Docker\<close> separator in the output.
\<close>

theorem category_separator_only_on_change:
  "(\<forall>matcher. matchCurrentRemote env s = Inr matcher \<longrightarrow>
      fst (computeItems env s)
        = Inr (contributedItems None
                 (orderGroups env matcher (fst (getRemoteMenuActions True s)))
               @ Separator None # fixedEntries env s))
   \<and> contributedItems None (pre @ post)
       = contributedItems None pre
         @ contributedItems (lastSeparatorLabel (contributedItems None pre)) post
   \<and> ((snd g1 \<noteq> [] \<or> snd g2 \<noteq> [])
        \<and> (\<forall>a\<in>set (snd g1 @ snd g2).
              \<exists>i t c. a = MenuItemAction i t c \<and> getCategoryLabel c = Some ''Docker'') \<longrightarrow>
        contributedItems preceding [g1, g2]
          = (if Some ''Docker'' \<noteq> preceding then [Separator (Some ''Docker'')] else [])
            @ actionItems (snd g1) @ actionItems (snd g2))
   \<and> ((snd g1 \<noteq> [] \<or> snd g2 \<noteq> [])
        \<and> (\<forall>a\<in>set (snd g1 @ snd g2).
              \<exists>i t c. a = MenuItemAction i t c \<and> getCategoryLabel c = Some ''Docker'')
        \<and> matchCurrentRemote env s = Inr grouping
        \<and> orderGroups env grouping (fst (getRemoteMenuActions True s)) = [g1, g2] \<longrightarrow>
        fst (computeItems env s)
          = Inr (Separator (Some ''Docker'') # actionItems (snd g1) @ actionItems (snd g2)
                 @ Separator None # fixedEntries env s)
        \<and> (case fst (computeItems env s) of
              Inl e \<Rightarrow> 0
            | Inr items \<Rightarrow> count_list (separatorLabels items) (Some ''Docker'')) = 1)"
proof -
  have 1: "\<forall>matcher. matchCurrentRemote env s = Inr matcher \<longrightarrow>
      fst (computeItems env s)
        = Inr (contributedItems None
                 (orderGroups env matcher (fst (getRemoteMenuActions True s)))
               @ Separator None # fixedEntries env s)"
    by (simp add: computeItems_returns emitGroups_contributedItems)
  have 3: "(snd g1 \<noteq> [] \<or> snd g2 \<noteq> [])
        \<and> (\<forall>a\<in>set (snd g1 @ snd g2).
              \<exists>i t c. a = MenuItemAction i t c \<and> getCategoryLabel c = Some ''Docker'') \<longrightarrow>
        contributedItems preceding [g1, g2]
          = (if Some ''Docker'' \<noteq> preceding then [Separator (Some ''Docker'')] else [])
            @ actionItems (snd g1) @ actionItems (snd g2)"
    using docker_groups [of g1 g2 preceding] by blast
  have 4: "(snd g1 \<noteq> [] \<or> snd g2 \<noteq> [])
        \<and> (\<forall>a\<in>set (snd g1 @ snd g2).
              \<exists>i t c. a = MenuItemAction i t c \<and> getCategoryLabel c = Some ''Docker'')
        \<and> matchCurrentRemote env s = Inr grouping
        \<and> orderGroups env grouping (fst (getRemoteMenuActions True s)) = [g1, g2] \<longrightarrow>
        fst (computeItems env s)
          = Inr (Separator (Some ''Docker'') # actionItems (snd g1) @ actionItems (snd g2)
                 @ Separator None # fixedEntries env s)
        \<and> (case fst (computeItems env s) of
              Inl e \<Rightarrow> 0
            | Inr items \<Rightarrow> count_list (separatorLabels items) (Some ''Docker'')) = 1"
  proof
    assume h: "(snd g1 \<noteq> [] \<or> snd g2 \<noteq> [])
        \<and> (\<forall>a\<in>set (snd g1 @ snd g2).
              \<exists>i t c. a = MenuItemAction i t c \<and> getCategoryLabel c = Some ''Docker'')
        \<and> matchCurrentRemote env s = Inr grouping
        \<and> orderGroups env grouping (fst (getRemoteMenuActions True s)) = [g1, g2]"
    then have d: "contributedItems None [g1, g2]
          = Separator (Some ''Docker'') # actionItems (snd g1) @ actionItems (snd g2)"
      using docker_groups [of g1 g2 None] by simp
    have e: "fst (computeItems env s)
          = Inr (Separator (Some ''Docker'') # actionItems (snd g1) @ actionItems (snd g2)
                 @ Separator None # fixedEntries env s)"
      using h 1 d by simp
    show "fst (computeItems env s)
          = Inr (Separator (Some ''Docker'') # actionItems (snd g1) @ actionItems (snd g2)
                 @ Separator None # fixedEntries env s)
        \<and> (case fst (computeItems env s) of
              Inl e \<Rightarrow> 0
            | Inr items \<Rightarrow> count_list (separatorLabels items) (Some ''Docker'')) = 1"
      unfolding e
      by (simp add: separatorLabels_append separatorLabels_actionItems
          separatorLabels_fixedEntries)
  qed
  show ?thesis by (intro conjI 1 contributedItems_append 3 4)
qed

theorem category_separator_only_on_change_witness:
  "snd docker_group \<noteq> []
   \<and> matchCurrentRemote sample_services docker_window = Inr None
   \<and> orderGroups sample_services None (fst (getRemoteMenuActions True docker_window))
       = [docker_group, docker_group]
   \<and> fst (computeItems sample_services docker_window)
       = Inr [Separator (Some ''Docker''),
              Item ''docker.attach'' ''Attach'' False, Item ''docker.build'' ''Build'' False,
              Item ''docker.attach'' ''Attach'' False, Item ''docker.build'' ''Build'' False,
              Separator None,
              Item ''workbench.action.remote.connect'' ''Connect Remote Connection'' False,
              Separator None,
              Item ''remote.logRemoteAuthority'' ''Log Remote Authority'' False,
              Item ''remote.logVirtualWorkspaceLocation'' ''Log Virtual Workspace Location'' False,
              Item ''remote.logExtensionGalleryService'' ''Log Extension Gallery Service'' False]
   \<and> (case fst (computeItems sample_services docker_window) of
         Inl e \<Rightarrow> 0
       | Inr items \<Rightarrow> count_list (separatorLabels items) (Some ''Docker'')) = (1::nat)"
proof -
  have a: "snd docker_group \<noteq> [] \<or> snd docker_group \<noteq> []"
    by (simp add: docker_group_def)
  have b: "\<forall>a\<in>set (snd docker_group @ snd docker_group).
              \<exists>i t c. a = MenuItemAction i t c \<and> getCategoryLabel c = Some ''Docker''"
    by (simp add: docker_group_def)
  have ra: "\<not> truthy (remoteAuthority docker_window)" by code_simp
  have vw: "virtualWorkspaceLocation docker_window = None" by code_simp
  have m: "matchCurrentRemote sample_services docker_window = Inr None"
    using ra vw by (simp add: matchCurrentRemote_none)
  have g: "orderGroups sample_services None (fst (getRemoteMenuActions True docker_window))
       = [docker_group, docker_group]"
    by code_simp
  have d: "actionItems (snd docker_group) =
      [Item ''docker.attach'' ''Attach'' False, Item ''docker.build'' ''Build'' False]"
    by (simp add: docker_group_def)
  have f: "fixedEntries sample_services docker_window
     = [Item ''workbench.action.remote.connect'' ''Connect Remote Connection'' False,
        Separator None,
        Item ''remote.logRemoteAuthority'' ''Log Remote Authority'' False,
        Item ''remote.logVirtualWorkspaceLocation'' ''Log Virtual Workspace Location'' False,
        Item ''remote.logExtensionGalleryService'' ''Log Extension Gallery Service'' False]"
    by code_simp
  have h: "snd docker_group \<noteq> []" by (simp add: docker_group_def)
  show ?thesis
    using a b m g d f h
      category_separator_only_on_change
        [of sample_services docker_window _ _ docker_group docker_group _ None]
    by simp
qed

section \<open>The plain separator before the fixed entries\<close>

lemma connect_in_fixedEntries:
  "Item CONNECT_REMOTE_COMMAND_ID
     (localize env ''connectRemoteConnection.title'' ''Connect Remote Connection'' []) False
   \<in> set (fixedEntries env s)"
  by (simp add: fixedEntries_def)

lemma last_fixedEntries: "\<not> is_separator (last (fixedEntries env s))"
  by (simp add: fixedEntries_def is_separator_def)

lemma computeItems_list:
  "fst (computeItems env s) = Inr items \<Longrightarrow>
   (\<exists>contributed. items = contributed @ Separator None # fixedEntries env s)
   \<and> \<not> is_separator (last items)"
proof -
  assume r: "fst (computeItems env s) = Inr items"
  then obtain matcher where m: "matchCurrentRemote env s = Inr matcher"
    by (cases "matchCurrentRemote env s") (simp_all add: computeItems_throws)
  have i: "items =
      fst (emitGroups (orderGroups env matcher (fst (getRemoteMenuActions True s))) ([], None))
      @ Separator None # fixedEntries env s"
    using r by (simp add: computeItems_returns [OF m])
  have "\<not> is_separator (last items)"
    unfolding i using last_fixedEntries [of env s] fixedEntries_not_empty [of env s] by simp
  then show ?thesis using i by blast
qed

lemma showRemoteMenu_list:
  "fst (computeItems env s) = Inr items \<Longrightarrow>
   showRemoteMenu env s = (None, (snd (computeItems env s))\<lparr> quickPick := Some items \<rparr>)"
  by (cases "computeItems env s") (simp add: showRemoteMenu_def)

lemma showRemoteMenu_exception:
  "fst (computeItems env s) = Inl e \<Longrightarrow> showRemoteMenu env s = (Some e, snd (computeItems env s))"
  by (cases "computeItems env s") (simp add: showRemoteMenu_def)

text \<open>
  C10. The list that \<open>computeItems\<close> returns, and \<open>showRemoteMenu\<close> hands to the quick pick,
  is the contributed items, the plain separator, and the fixed entries. The fixed entries
  are never empty (the connect entry is always among them), so the separator is always
  followed by an entry and the list ends with an item, not with a separator. The removal
  at the end of \<open>computeItems\<close> takes the separator away when no fixed entry was pushed
  and keeps it otherwise. A list is returned unless the pattern of the current remote
  cannot be made, which ends \<open>computeItems\<close> with the exception and hands no list to the
  quick pick; it is returned whenever neither an authority nor a virtual workspace
  location is set, and for an authority whose name has no special characters.
\<close>

theorem plain_separator_followed_by_fixed_entries:
  "(\<forall>matcher. matchCurrentRemote env s = Inr matcher \<longrightarrow>
      fst (computeItems env s)
        = Inr (fst (emitGroups (orderGroups env matcher (fst (getRemoteMenuActions True s)))
                      ([], None))
               @ Separator None # fixedEntries env s))
   \<and> (\<forall>items. fst (computeItems env s) = Inr items \<longrightarrow>
         (\<exists>contributed. items = contributed @ Separator None # fixedEntries env s)
         \<and> \<not> is_separator (last items)
         \<and> showRemoteMenu env s
             = (None, (snd (computeItems env s))\<lparr> quickPick := Some items \<rparr>))
   \<and> (\<forall>e. fst (computeItems env s) = Inl e \<longrightarrow>
         matchCurrentRemote env s = Inl e
         \<and> showRemoteMenu env s = (Some e, snd (computeItems env s)))
   \<and> (\<not> truthy (remoteAuthority s) \<and> virtualWorkspaceLocation s = None \<longrightarrow>
        (\<exists>items. fst (computeItems env s) = Inr items))
   \<and> (remoteAuthority s = Some a \<and> a \<noteq> [] \<and> rx_literal (getRemoteName env a) \<longrightarrow>
        (\<exists>items. fst (computeItems env s) = Inr items))
   \<and> fixedEntries env s \<noteq> []
   \<and> Item CONNECT_REMOTE_COMMAND_ID
        (localize env ''connectRemoteConnection.title'' ''Connect Remote Connection'' []) False
      \<in> set (fixedEntries env s)
   \<and> appendFixedEntries contributed [] = contributed
   \<and> (fixed \<noteq> [] \<longrightarrow>
        appendFixedEntries contributed fixed = contributed @ Separator None # fixed)"
proof -
  have 1: "\<forall>matcher. matchCurrentRemote env s = Inr matcher \<longrightarrow>
      fst (computeItems env s)
        = Inr (fst (emitGroups (orderGroups env matcher (fst (getRemoteMenuActions True s)))
                      ([], None))
               @ Separator None # fixedEntries env s)"
    by (simp add: computeItems_returns)
  have 2: "\<forall>items. fst (computeItems env s) = Inr items \<longrightarrow>
         (\<exists>contributed. items = contributed @ Separator None # fixedEntries env s)
         \<and> \<not> is_separator (last items)
         \<and> showRemoteMenu env s
             = (None, (snd (computeItems env s))\<lparr> quickPick := Some items \<rparr>)"
    using computeItems_list [of env s] showRemoteMenu_list [of env s] by blast
  have 3: "\<forall>e. fst (computeItems env s) = Inl e \<longrightarrow>
         matchCurrentRemote env s = Inl e
         \<and> showRemoteMenu env s = (Some e, snd (computeItems env s))"
    using computeItems_error_iff [of env s] showRemoteMenu_exception [of env s] by blast
  have 4: "\<not> truthy (remoteAuthority s) \<and> virtualWorkspaceLocation s = None \<longrightarrow>
        (\<exists>items. fst (computeItems env s) = Inr items)"
  proof
    assume "\<not> truthy (remoteAuthority s) \<and> virtualWorkspaceLocation s = None"
    then have "matchCurrentRemote env s = Inr None" by (simp add: matchCurrentRemote_none)
    then show "\<exists>items. fst (computeItems env s) = Inr items"
      by (simp add: computeItems_returns)
  qed
  have 5: "remoteAuthority s = Some a \<and> a \<noteq> [] \<and> rx_literal (getRemoteName env a) \<longrightarrow>
        (\<exists>items. fst (computeItems env s) = Inr items)"
  proof
    assume "remoteAuthority s = Some a \<and> a \<noteq> [] \<and> rx_literal (getRemoteName env a)"
    then have "matchCurrentRemote env s
        = Inr (Some (rx_test_prefix (currentRemotePattern ''remote'' (getRemoteName env a))))"
      using matchCurrentRemote_authority [of s a env] by blast
    then show "\<exists>items. fst (computeItems env s) = Inr items"
      by (simp add: computeItems_returns)
  qed
  have 9: "fixed \<noteq> [] \<longrightarrow>
        appendFixedEntries contributed fixed = contributed @ Separator None # fixed"
    using appendFixedEntries_some by blast
  show ?thesis
    by (intro conjI 1 2 3 4 5 fixedEntries_not_empty connect_in_fixedEntries
        appendFixedEntries_empty 9)
qed

theorem plain_separator_followed_by_fixed_entries_witness:
  "fst (computeItems sample_services sample_state)
     = Inr [Separator None,
            Item ''workbench.action.remote.connect'' ''Connect Remote Connection'' False,
            Separator None,
            Item ''remote.logRemoteAuthority'' ''Log Remote Authority'' False,
            Item ''remote.logVirtualWorkspaceLocation'' ''Log Virtual Workspace Location'' False,
            Item ''remote.logExtensionGalleryService'' ''Log Extension Gallery Service'' False]
   \<and> quickPick (snd (showRemoteMenu sample_services sample_state))
     = Some [Separator None,
            Item ''workbench.action.remote.connect'' ''Connect Remote Connection'' False,
            Separator None,
            Item ''remote.logRemoteAuthority'' ''Log Remote Authority'' False,
            Item ''remote.logVirtualWorkspaceLocation'' ''Log Virtual Workspace Location'' False,
            Item ''remote.logExtensionGalleryService'' ''Log Extension Gallery Service'' False]
   \<and> fst (computeItems sample_services refused_window) = Inl SyntaxError
   \<and> fst (showRemoteMenu sample_services refused_window) = Some SyntaxError
   \<and> appendFixedEntries [] [Item ''a'' ''b'' False] = [Separator None, Item ''a'' ''b'' False]"
proof -
  have ra: "\<not> truthy (remoteAuthority sample_state)" by code_simp
  have vw: "virtualWorkspaceLocation sample_state = None" by code_simp
  have m: "matchCurrentRemote sample_services sample_state = Inr None"
    using ra vw by (simp add: matchCurrentRemote_none)
  have a: "fst (emitGroups (orderGroups sample_services None
              (fst (getRemoteMenuActions True sample_state))) ([], None))
       @ Separator None # fixedEntries sample_services sample_state
     = [Separator None,
        Item ''workbench.action.remote.connect'' ''Connect Remote Connection'' False,
        Separator None,
        Item ''remote.logRemoteAuthority'' ''Log Remote Authority'' False,
        Item ''remote.logVirtualWorkspaceLocation'' ''Log Virtual Workspace Location'' False,
        Item ''remote.logExtensionGalleryService'' ''Log Extension Gallery Service'' False]"
    by code_simp
  have b: "[Item ''a'' ''b'' False] \<noteq> []" by simp
  have c: "fst (computeItems sample_services refused_window) = Inl SyntaxError" by code_simp
  note t1 = plain_separator_followed_by_fixed_entries
        [of sample_services sample_state _ "[]" "[Item ''a'' ''b'' False]"]
  note t2 = plain_separator_followed_by_fixed_entries [of sample_services refused_window]
  have d: "fst (computeItems sample_services sample_state)
     = Inr [Separator None,
            Item ''workbench.action.remote.connect'' ''Connect Remote Connection'' False,
            Separator None,
            Item ''remote.logRemoteAuthority'' ''Log Remote Authority'' False,
            Item ''remote.logVirtualWorkspaceLocation'' ''Log Virtual Workspace Location'' False,
            Item ''remote.logExtensionGalleryService'' ''Log Extension Gallery Service'' False]"
    using m a t1 by simp
  have e: "showRemoteMenu sample_services sample_state
      = (None, (snd (computeItems sample_services sample_state))
           \<lparr> quickPick := Some [Separator None,
            Item ''workbench.action.remote.connect'' ''Connect Remote Connection'' False,
            Separator None,
            Item ''remote.logRemoteAuthority'' ''Log Remote Authority'' False,
            Item ''remote.logVirtualWorkspaceLocation'' ''Log Virtual Workspace Location'' False,
            Item ''remote.logExtensionGalleryService'' ''Log Extension Gallery Service'' False] \<rparr>)"
    using d t1 by blast
  have f: "showRemoteMenu sample_services refused_window
      = (Some SyntaxError, snd (computeItems sample_services refused_window))"
    using c t2 by blast
  have g: "appendFixedEntries [] [Item ''a'' ''b'' False] = [Separator None, Item ''a'' ''b'' False]"
    using b t1 by simp
  show ?thesis using d e f c g by simp
qed

end
